theory Spec2Isabelle
  imports Main "HOL-Library.Word"
begin

section \<open>CarbonLookasideRoute: data model\<close>

text \<open>
  The route handle of \<^verbatim>\<open>CarbonLookasideRoute.h\<close> talks to three collaborators
  that are not part of the file: the memcache client, the child route handle and the
  user-defined helper. Each is a record of functions. Everything the route does to
  them is written to a trace of events, in program order, and each collaborator may
  answer depending on the trace so far.
\<close>

type_synonym int32 = "32 word"
type_synonym int64 = "64 word"
type_synonym size_t = "64 word"

datatype mc_res = ResHit | ResMiss | ResOther

definition isHitResult :: "mc_res \<Rightarrow> bool" where
  \<comment> \<open>Modelled from the spec: the result-class discriminant of a cache reply
      (hit / miss / other); \<^verbatim>\<open>isHitResult\<close> is declared in \<^verbatim>\<open>mcrouter/lib\<close>.\<close>
  "isHitResult r = (r = ResHit)"

definition isMissResult :: "mc_res \<Rightarrow> bool" where
  \<comment> \<open>Modelled from the spec: see \<open>isHitResult\<close>.\<close>
  "isMissResult r = (r = ResMiss)"

record McGetReply =
  get_result :: mc_res
  get_value :: "string option"

record McLeaseGetReply =
  lg_result :: mc_res
  lg_value :: "string option"
  lg_leaseToken :: int64

record McSetRequest =
  set_key :: string
  set_exptime :: int32
  set_value :: string

record McLeaseSetRequest =
  ls_key :: string
  ls_exptime :: int32
  ls_leaseToken :: int64
  ls_value :: string

text \<open>
  One event per externally visible action of the route: a request sent to the cache
  with the reply the callback received, a timed wait on the sleep baton, a call of
  the child, and a write handed to \<^verbatim>\<open>folly::fibers::addTask\<close>.
\<close>

datatype 'req event =
    SendGet string McGetReply
  | SendLeaseGet string McLeaseGetReply
  | Sleep int
  | ChildRoute 'req
  | SendSet McSetRequest
  | SendLeaseSet McLeaseSetRequest

record LeaseSettings =
  enableLeases :: bool
  initialWaitMs :: int32
  maxWaitMs :: int32
  numRetries :: int32

definition defaultLeaseSettings :: LeaseSettings where
  "defaultLeaseSettings =
     \<lparr>enableLeases = False, initialWaitMs = 2, maxWaitMs = 500, numRetries = 10\<rparr>"

record 'req CarbonLookasideHelper =
  helper_name :: string
  cacheCandidate :: "'req \<Rightarrow> bool"
  helper_buildKey :: "'req \<Rightarrow> string"

record 'req CarbonRouterClient =
  send_get :: "'req event list \<Rightarrow> string \<Rightarrow> McGetReply"
  send_lease_get :: "'req event list \<Rightarrow> string \<Rightarrow> McLeaseGetReply"

record ('req, 'rep) RouteHandleIf =
  rh_name :: string
  rh_route :: "'req event list \<Rightarrow> 'req \<Rightarrow> 'rep"

text \<open>
  \<^verbatim>\<open>reply.deserialize(reader)\<close> returns \<^verbatim>\<open>void\<close>: it leaves the reply object in
  some state and tells its caller nothing. The codec of the reply type is a parameter;
  \<open>well_formed\<close> records whether the payload was a proper serialisation, which the
  caller of \<^verbatim>\<open>deserialize\<close> cannot see.
\<close>

record 'rep decoded =
  well_formed :: bool
  reply_object :: 'rep

record 'rep codec =
  serialize :: "'rep \<Rightarrow> string list"
  deserialize :: "string \<Rightarrow> 'rep decoded"

datatype CarbonRouterInstance = CarbonRouterInstance string

text \<open>
  The private members of the class, named as in the source without the trailing
  underscore.
\<close>

record ('req, 'rep) CarbonLookasideRoute =
  child :: "('req, 'rep) RouteHandleIf"
  router :: CarbonRouterInstance
  client :: "'req CarbonRouterClient"
  keyPrefix :: string
  keySuffix :: string
  ttl :: int32
  carbonLookasideHelper :: "'req CarbonLookasideHelper"
  leaseSettings :: LeaseSettings

text \<open>
  The \<^verbatim>\<open>int32_t\<close> arithmetic of the lease loop is modelled as the built code
  performs it: a result outside the range of \<^verbatim>\<open>int32_t\<close> wraps around modulo
  \<open>2 ^ 32\<close>. With \<open>numRetries = INT32_MAX\<close> the loop condition then never fails and
  the loop runs for as long as the cache answers with hot misses, so the loop takes
  fuel, one unit per iteration; a run that uses it up ends in \<open>OutOfFuel\<close> with the
  trace so far.
\<close>

datatype 'a outcome = Returns 'a | OutOfFuel

definition in_int32 :: "int \<Rightarrow> bool" where
  "in_int32 x = (- 2147483648 \<le> x \<and> x \<le> 2147483647)"

definition wrap32 :: "int \<Rightarrow> int" where
  "wrap32 x = (x + 2147483648) mod 4294967296 - 2147483648"

section \<open>Key composition\<close>

definition digit_char :: "nat \<Rightarrow> char" where
  "digit_char d = char_of (48 + d)"

function to_decimal :: "nat \<Rightarrow> string" where
  \<comment> \<open>Modelled from the spec: \<^verbatim>\<open>folly::to<std::string>\<close> of an unsigned integer, its
      decimal representation.\<close>
  "to_decimal n = (if n < 10 then [digit_char n] else to_decimal (n div 10) @ [digit_char (n mod 10)])"
  by pat_completeness auto
termination
  by (relation "measure id") auto

declare to_decimal.simps [simp del]

definition buildKeySuffix :: "size_t \<Rightarrow> size_t \<Rightarrow> string" where
  \<comment> \<open>\<open>hostid\<close> is the value of \<^verbatim>\<open>globals::hostid()\<close> as the operator \<^verbatim>\<open>%\<close> sees it,
      converted to \<^verbatim>\<open>size_t\<close>.\<close>
  "buildKeySuffix hostid keySplitSize =
     (if keySplitSize \<le> 1 then ''''
      else '':ks'' @ to_decimal (unat (hostid mod keySplitSize)))"

definition buildKey :: "('req, 'rep) CarbonLookasideRoute \<Rightarrow> 'req \<Rightarrow> string" where
  "buildKey c req =
     keyPrefix c @ helper_buildKey (carbonLookasideHelper c) req @ keySuffix c"

section \<open>Read path\<close>

definition carbonLookasideGet_plain ::
  "'rep codec \<Rightarrow> ('req, 'rep) CarbonLookasideRoute \<Rightarrow> string \<Rightarrow> 'req event list
     \<Rightarrow> 'rep option \<times> 'req event list" where
  "carbonLookasideGet_plain cd c key t =
     (let cacheReply = send_get (client c) t key;
          ret = (if isHitResult (get_result cacheReply) then
                   (case get_value cacheReply of
                      Some payload \<Rightarrow> Some (reply_object (deserialize cd payload))
                    | None \<Rightarrow> None)
                 else None)
      in (ret, t @ [SendGet key cacheReply]))"

definition kLeaseHotMissToken :: int64 where
  "kLeaseHotMissToken = 1"

text \<open>
  The callback of the lease read: from the reply and the captured \<^verbatim>\<open>ret\<close> and
  \<^verbatim>\<open>leaseToken\<close> to the new \<^verbatim>\<open>ret\<close>, \<^verbatim>\<open>retry\<close> and \<^verbatim>\<open>leaseToken\<close>.
\<close>

definition leaseGetCallback ::
  "'rep codec \<Rightarrow> McLeaseGetReply \<Rightarrow> 'rep option \<Rightarrow> int64 \<Rightarrow> 'rep option \<times> bool \<times> int64" where
  "leaseGetCallback cd cacheReply ret leaseToken =
     (case (if isHitResult (lg_result cacheReply) then lg_value cacheReply else None) of
        Some payload \<Rightarrow> (Some (reply_object (deserialize cd payload)), False, leaseToken)
      | None \<Rightarrow>
          if isMissResult (lg_result cacheReply) then
            (if lg_leaseToken cacheReply = kLeaseHotMissToken then (ret, True, leaseToken)
             else (ret, False, lg_leaseToken cacheReply))
          else (ret, False, leaseToken))"

text \<open>
  The \<^verbatim>\<open>for\<close> loop of \<^verbatim>\<open>carbonLookasideLeaseGet\<close> from the test of its condition
  onwards, with the loop variables as arguments. \<open>attempt\<close> and \<open>nextInterval\<close> hold
  the values of the \<^verbatim>\<open>int32_t\<close> variables; \<^verbatim>\<open>nextInterval * 2\<close> and \<^verbatim>\<open>++attempt\<close>
  wrap around.
\<close>

fun leaseGetLoop ::
  "'rep codec \<Rightarrow> ('req, 'rep) CarbonLookasideRoute \<Rightarrow> string \<Rightarrow> nat \<Rightarrow> int \<Rightarrow> int
     \<Rightarrow> 'rep option \<Rightarrow> int64 \<Rightarrow> 'req event list
     \<Rightarrow> ('rep option \<times> int64) outcome \<times> 'req event list" where
  "leaseGetLoop cd c key 0 attempt nextInterval ret leaseToken t = (OutOfFuel, t)"
| "leaseGetLoop cd c key (Suc fuel) attempt nextInterval ret leaseToken t =
     (if attempt \<le> sint (numRetries (leaseSettings c)) then
        (let t1 = (if attempt \<noteq> 0 then t @ [Sleep nextInterval] else t);
             nextInterval' =
               (if attempt \<noteq> 0
                then min (wrap32 (nextInterval * 2)) (sint (maxWaitMs (leaseSettings c)))
                else nextInterval);
             cacheReply = send_lease_get (client c) t1 key;
             t2 = t1 @ [SendLeaseGet key cacheReply]
         in (case leaseGetCallback cd cacheReply ret leaseToken of
               (ret', retry, leaseToken') \<Rightarrow>
                 if \<not> retry then (Returns (ret', leaseToken'), t2)
                 else leaseGetLoop cd c key fuel (wrap32 (attempt + 1)) nextInterval'
                        ret' leaseToken' t2))
      else (Returns (ret, leaseToken), t))"

declare leaseGetLoop.simps [simp del]

definition carbonLookasideLeaseGet ::
  "'rep codec \<Rightarrow> ('req, 'rep) CarbonLookasideRoute \<Rightarrow> nat \<Rightarrow> string \<Rightarrow> 'req event list
     \<Rightarrow> ('rep option \<times> int64) outcome \<times> 'req event list" where
  "carbonLookasideLeaseGet cd c fuel key t =
     leaseGetLoop cd c key fuel 0 (sint (initialWaitMs (leaseSettings c))) None 0 t"

definition carbonLookasideGet ::
  "'rep codec \<Rightarrow> ('req, 'rep) CarbonLookasideRoute \<Rightarrow> nat \<Rightarrow> string \<Rightarrow> int64
     \<Rightarrow> 'req event list \<Rightarrow> ('rep option \<times> int64) outcome \<times> 'req event list" where
  "carbonLookasideGet cd c fuel key leaseToken t =
     (if enableLeases (leaseSettings c) then carbonLookasideLeaseGet cd c fuel key t
      else (case carbonLookasideGet_plain cd c key t of
              (ret, t') \<Rightarrow> (Returns (ret, leaseToken), t')))"

section \<open>Write path\<close>

definition serializeOffFiber :: "'rep codec \<Rightarrow> 'rep \<Rightarrow> string" where
  "serializeOffFiber cd reply = foldl (\<lambda>body iov. body @ iov) [] (serialize cd reply)"

definition carbonLookasideSet_plain ::
  "'rep codec \<Rightarrow> ('req, 'rep) CarbonLookasideRoute \<Rightarrow> string \<Rightarrow> 'rep \<Rightarrow> 'req event list
     \<Rightarrow> 'req event list" where
  "carbonLookasideSet_plain cd c key reply t =
     t @ [SendSet \<lparr>set_key = key, set_exptime = ttl c,
                   set_value = serializeOffFiber cd reply\<rparr>]"

definition carbonLookasideLeaseSet ::
  "'rep codec \<Rightarrow> ('req, 'rep) CarbonLookasideRoute \<Rightarrow> string \<Rightarrow> 'rep \<Rightarrow> int64
     \<Rightarrow> 'req event list \<Rightarrow> 'req event list" where
  "carbonLookasideLeaseSet cd c key reply leaseToken t =
     t @ [SendLeaseSet \<lparr>ls_key = key, ls_exptime = ttl c, ls_leaseToken = leaseToken,
                        ls_value = serializeOffFiber cd reply\<rparr>]"

definition carbonLookasideSet ::
  "'rep codec \<Rightarrow> ('req, 'rep) CarbonLookasideRoute \<Rightarrow> string \<Rightarrow> 'rep \<Rightarrow> int64
     \<Rightarrow> 'req event list \<Rightarrow> 'req event list" where
  "carbonLookasideSet cd c key reply leaseToken t =
     (if enableLeases (leaseSettings c) \<and> leaseToken \<noteq> 0
      then carbonLookasideLeaseSet cd c key reply leaseToken t
      else carbonLookasideSet_plain cd c key reply t)"

section \<open>Route orchestration\<close>

definition route_child ::
  "'rep codec \<Rightarrow> ('req, 'rep) CarbonLookasideRoute \<Rightarrow> 'req \<Rightarrow> bool \<Rightarrow> string \<Rightarrow> int64
     \<Rightarrow> 'req event list \<Rightarrow> 'rep outcome \<times> 'req event list" where
  \<comment> \<open>the part of \<^verbatim>\<open>route\<close> after the read: the child, then the write\<close>
  "route_child cd c req cand key leaseToken t =
     (let reply = rh_route (child c) t req;
          t1 = t @ [ChildRoute req];
          t2 = (if cand then carbonLookasideSet cd c key reply leaseToken t1 else t1)
      in (Returns reply, t2))"

definition route ::
  "'rep codec \<Rightarrow> ('req, 'rep) CarbonLookasideRoute \<Rightarrow> nat \<Rightarrow> 'req \<Rightarrow> 'req event list
     \<Rightarrow> 'rep outcome \<times> 'req event list" where
  \<comment> \<open>\<open>fuel\<close> is the fuel of the lease loop\<close>
  "route cd c fuel req t =
     (let cand = cacheCandidate (carbonLookasideHelper c) req in
      if cand then
        (let key = buildKey c req in
         case carbonLookasideGet cd c fuel key 0 t of
           (OutOfFuel, t1) \<Rightarrow> (OutOfFuel, t1)
         | (Returns (Some r, leaseToken), t1) \<Rightarrow> (Returns r, t1)
         | (Returns (None, leaseToken), t1) \<Rightarrow> route_child cd c req cand key leaseToken t1)
      else route_child cd c req cand [] 0 t)"

section \<open>Construction\<close>

definition mkCarbonLookasideRoute ::
  "size_t \<Rightarrow> ('req, 'rep) RouteHandleIf \<Rightarrow> CarbonRouterInstance \<Rightarrow> 'req CarbonRouterClient
     \<Rightarrow> string \<Rightarrow> size_t \<Rightarrow> int32 \<Rightarrow> 'req CarbonLookasideHelper \<Rightarrow> LeaseSettings
     \<Rightarrow> ('req, 'rep) CarbonLookasideRoute" where
  \<comment> \<open>the constructor; \<open>hostid\<close> as in \<open>buildKeySuffix\<close>\<close>
  "mkCarbonLookasideRoute hostid ch rt cl prefix keySplitSize ttl' helper ls =
     \<lparr>child = ch, router = rt, client = cl, keyPrefix = prefix,
      keySuffix = buildKeySuffix hostid keySplitSize, ttl = ttl',
      carbonLookasideHelper = helper, leaseSettings = ls\<rparr>"

section \<open>Observations on traces\<close>

fun is_cache_op :: "'req event \<Rightarrow> bool" where
  "is_cache_op (SendGet k r) = True"
| "is_cache_op (SendLeaseGet k r) = True"
| "is_cache_op (SendSet s) = True"
| "is_cache_op (SendLeaseSet s) = True"
| "is_cache_op (Sleep d) = False"
| "is_cache_op (ChildRoute q) = False"

fun is_child_call :: "'req event \<Rightarrow> bool" where
  "is_child_call (ChildRoute q) = True"
| "is_child_call (SendGet k r) = False"
| "is_child_call (SendLeaseGet k r) = False"
| "is_child_call (SendSet s) = False"
| "is_child_call (SendLeaseSet s) = False"
| "is_child_call (Sleep d) = False"

fun is_write :: "'req event \<Rightarrow> bool" where
  "is_write (SendSet s) = True"
| "is_write (SendLeaseSet s) = True"
| "is_write (SendGet k r) = False"
| "is_write (SendLeaseGet k r) = False"
| "is_write (Sleep d) = False"
| "is_write (ChildRoute q) = False"

fun event_key :: "'req event \<Rightarrow> string option" where
  "event_key (SendGet k r) = Some k"
| "event_key (SendLeaseGet k r) = Some k"
| "event_key (SendSet s) = Some (set_key s)"
| "event_key (SendLeaseSet s) = Some (ls_key s)"
| "event_key (Sleep d) = None"
| "event_key (ChildRoute q) = None"

text \<open>The payload a read event brought back when the cache answered with a hit.\<close>

fun cached_payload :: "'req event \<Rightarrow> string option" where
  "cached_payload (SendGet k r) = (if isHitResult (get_result r) then get_value r else None)"
| "cached_payload (SendLeaseGet k r) = (if isHitResult (lg_result r) then lg_value r else None)"
| "cached_payload (SendSet s) = None"
| "cached_payload (SendLeaseSet s) = None"
| "cached_payload (Sleep d) = None"
| "cached_payload (ChildRoute q) = None"

text \<open>The events a read for \<open>key\<close> may add: requests for that key, and sleeps.\<close>

fun is_read_event :: "string \<Rightarrow> 'req event \<Rightarrow> bool" where
  "is_read_event key (SendGet k r) = (k = key)"
| "is_read_event key (SendLeaseGet k r) = (k = key)"
| "is_read_event key (Sleep d) = True"
| "is_read_event key (SendSet s) = False"
| "is_read_event key (SendLeaseSet s) = False"
| "is_read_event key (ChildRoute q) = False"

section \<open>The factory\<close>

text \<open>
  \<^verbatim>\<open>folly::dynamic\<close>, as far as the factory looks at it. The factory reads members
  of an object only after it has checked that the value is an object.
\<close>

datatype dynamic =
    DNull
  | DBool bool
  | DInt int64
  | DDouble "64 word"
  | DString string
  | DArray "dynamic list"
  | DObject "(string \<times> dynamic) list"

fun isObject :: "dynamic \<Rightarrow> bool" where
  "isObject (DObject kvs) = True"
| "isObject j = False"

fun get_ptr :: "dynamic \<Rightarrow> string \<Rightarrow> dynamic option" where
  "get_ptr (DObject kvs) k = map_of kvs k"
| "get_ptr j k = None"

text \<open>The failed \<^verbatim>\<open>checkLogic\<close> calls, one constructor per message.\<close>

datatype config_error =
    NotAnObject
  | ChildMissing
  | ChildNotCreated
  | TtlMissing
  | TtlNotAnInteger
  | PrefixNotAString
  | FlavorNotAString
  | KeySplitSizeNotPositive
  | HelperConfigNotAnObject
  | LeaseSettingsError string

text \<open>
  What the factory returns: the child's route handle as it is, or a route handle
  made of a \<open>CarbonLookasideRoute\<close>.
\<close>

datatype ('req, 'rep) RouteHandle =
    RawChild "('req, 'rep) RouteHandleIf"
  | Lookaside "('req, 'rep) CarbonLookasideRoute"

text \<open>
  The collaborators of the factory that the file declares or calls and does not
  define: the route handle factory, \<^verbatim>\<open>parseLeaseSettings\<close>, the helper's constructor,
  \<^verbatim>\<open>createCarbonLookasideRouter\<close> (\<open>None\<close> is the null pointer), the router's
  \<^verbatim>\<open>createClient\<close> (\<open>Inl\<close> is the \<^verbatim>\<open>std::runtime_error\<close> it throws) and the host id.
\<close>

record ('req, 'rep) FactoryEnv =
  factory_create :: "dynamic \<Rightarrow> ('req, 'rep) RouteHandleIf option"
  parseLeaseSettings :: "dynamic \<Rightarrow> string + LeaseSettings"
  makeHelper :: "dynamic option \<Rightarrow> 'req CarbonLookasideHelper"
  createCarbonLookasideRouter :: "string \<Rightarrow> string \<Rightarrow> CarbonRouterInstance option"
  createClient :: "CarbonRouterInstance \<Rightarrow> string + 'req CarbonRouterClient"
  env_hostid :: size_t

text \<open>
  The end of \<^verbatim>\<open>createCarbonLookasideRoute\<close>, once the configuration is read: the
  router, the client, and the route handle.
\<close>

definition wrapChild ::
  "('req, 'rep) FactoryEnv \<Rightarrow> ('req, 'rep) RouteHandleIf \<Rightarrow> string \<Rightarrow> string \<Rightarrow> size_t
     \<Rightarrow> int32 \<Rightarrow> 'req CarbonLookasideHelper \<Rightarrow> LeaseSettings \<Rightarrow> ('req, 'rep) RouteHandle" where
  "wrapChild fe ch prefix flavor keySplitSize ttl' helper ls =
     (let persistenceId = ''CarbonLookasideClient:'' @ flavor in
      case createCarbonLookasideRouter fe persistenceId flavor of
        None \<Rightarrow> RawChild ch
      | Some rt \<Rightarrow>
          (case createClient fe rt of
             Inl what \<Rightarrow> RawChild ch
           | Inr cl \<Rightarrow>
               Lookaside (mkCarbonLookasideRoute (env_hostid fe) ch rt cl prefix keySplitSize
                            ttl' helper ls)))"

definition createCarbonLookasideRoute ::
  "('req, 'rep) FactoryEnv \<Rightarrow> dynamic \<Rightarrow> config_error + ('req, 'rep) RouteHandle" where
  "createCarbonLookasideRoute fe json =
     (if \<not> isObject json then Inl NotAnObject else
      case get_ptr json ''child'' of
        None \<Rightarrow> Inl ChildMissing
      | Some jChild \<Rightarrow>
      (case factory_create fe jChild of
        None \<Rightarrow> Inl ChildNotCreated
      | Some ch \<Rightarrow>
      (case get_ptr json ''ttl'' of
        None \<Rightarrow> Inl TtlMissing
      | Some jTtl \<Rightarrow>
      (case (case jTtl of DInt i \<Rightarrow> Some i | _ \<Rightarrow> None) of
        None \<Rightarrow> Inl TtlNotAnInteger
      | Some i \<Rightarrow>
      (let ttl' = (ucast i :: int32) in
       case (case get_ptr json ''prefix'' of
               None \<Rightarrow> Inr []
             | Some (DString s) \<Rightarrow> Inr s
             | Some _ \<Rightarrow> Inl PrefixNotAString) of
        Inl e \<Rightarrow> Inl e
      | Inr prefix \<Rightarrow>
      (case (case get_ptr json ''flavor'' of
               None \<Rightarrow> Inr ''web''
             | Some (DString s) \<Rightarrow> Inr s
             | Some _ \<Rightarrow> Inl FlavorNotAString) of
        Inl e \<Rightarrow> Inl e
      | Inr flavor \<Rightarrow>
      (case (case get_ptr json ''key_split_size'' of
               None \<Rightarrow> Inr (1 :: size_t)
             | Some (DInt k) \<Rightarrow> if 0 < sint k then Inr k else Inl KeySplitSizeNotPositive
             | Some _ \<Rightarrow> Inl KeySplitSizeNotPositive) of
        Inl e \<Rightarrow> Inl e
      | Inr keySplitSize \<Rightarrow>
      (case parseLeaseSettings fe json of
        Inl what \<Rightarrow> Inl (LeaseSettingsError what)
      | Inr ls \<Rightarrow>
      (let helperConfig = get_ptr json ''helper_config'' in
       if (case helperConfig of None \<Rightarrow> False | Some h \<Rightarrow> \<not> isObject h)
       then Inl HelperConfigNotAnObject
       else Inr (wrapChild fe ch prefix flavor keySplitSize ttl'
                   (makeHelper fe helperConfig) ls))))))))))"

text \<open>The flavor the factory reads from a configuration that passes its checks.\<close>

definition config_flavor :: "dynamic \<Rightarrow> string" where
  "config_flavor json =
     (case get_ptr json ''flavor'' of Some (DString s) \<Rightarrow> s | _ \<Rightarrow> ''web'')"

text \<open>
  Routing through a handle of the tree: a call of \<^verbatim>\<open>route\<close> on the child's handle,
  or \<open>route\<close> of the lookaside route.
\<close>

fun route_handle ::
  "'rep codec \<Rightarrow> nat \<Rightarrow> ('req, 'rep) RouteHandle \<Rightarrow> 'req \<Rightarrow> 'req event list
     \<Rightarrow> 'rep outcome \<times> 'req event list" where
  "route_handle cd fuel (RawChild h) req t =
     (Returns (rh_route h t req), t @ [ChildRoute req])"
| "route_handle cd fuel (Lookaside c) req t = route cd c fuel req t"

text \<open>\<^verbatim>\<open>traverse\<close> hands the child, and nothing else, to the traverser.\<close>

definition traverse ::
  "('req, 'rep) CarbonLookasideRoute \<Rightarrow> 'req \<Rightarrow> (('req, 'rep) RouteHandleIf \<Rightarrow> 'req \<Rightarrow> 'a) \<Rightarrow> 'a" where
  "traverse c req visit = visit (child c) req"

definition routeName :: "('req, 'rep) CarbonLookasideRoute \<Rightarrow> string" where
  "routeName c =
     ''lookaside-cache|name='' @ helper_name (carbonLookasideHelper c) @
     ''|ttl='' @ (if sint (ttl c) < 0 then ''-'' @ to_decimal (nat (- sint (ttl c)))
                  else to_decimal (nat (sint (ttl c)))) @
     ''s|leases='' @ (if enableLeases (leaseSettings c) then ''true'' else ''false'')"

fun lease_replies :: "'req event list \<Rightarrow> McLeaseGetReply list" where
  "lease_replies [] = []"
| "lease_replies (SendLeaseGet k r # es) = r # lease_replies es"
| "lease_replies (e # es) = lease_replies es"

definition hit_with_payload :: "McLeaseGetReply \<Rightarrow> bool" where
  "hit_with_payload r = (isHitResult (lg_result r) \<and> lg_value r \<noteq> None)"

definition hot_miss :: "McLeaseGetReply \<Rightarrow> bool" where
  "hot_miss r = (isMissResult (lg_result r) \<and> lg_leaseToken r = kLeaseHotMissToken)"

text \<open>
  The lease read as the specification words it: the replies of the successive
  \<^verbatim>\<open>LEASE_GET\<close>s, the first sent at once, each later one after a sleep of \<open>wait\<close>
  milliseconds, \<open>wait\<close> then becoming \<open>min (wait * 2) maxWait\<close>, in exact
  arithmetic.
\<close>

fun lease_events :: "string \<Rightarrow> bool \<Rightarrow> int \<Rightarrow> int \<Rightarrow> McLeaseGetReply list \<Rightarrow> 'req event list" where
  "lease_events key first wait maxWait [] = []"
| "lease_events key first wait maxWait (r # rs) =
     (if first then [] else [Sleep wait]) @ [SendLeaseGet key r] @
     lease_events key False (if first then wait else min (wait * 2) maxWait) maxWait rs"


text \<open>
  The events of the loop as it runs, from the loop variables \<open>attempt\<close> and
  \<open>wait\<close>: the same schedule in wrap-around arithmetic, where the sleep is left out
  whenever \<open>attempt\<close> is 0.
\<close>

fun lease_events32 :: "string \<Rightarrow> int \<Rightarrow> int \<Rightarrow> int \<Rightarrow> McLeaseGetReply list \<Rightarrow> 'req event list" where
  "lease_events32 key attempt wait maxWait [] = []"
| "lease_events32 key attempt wait maxWait (r # rs) =
     (if attempt = 0 then [] else [Sleep wait]) @ [SendLeaseGet key r] @
     lease_events32 key (wrap32 (attempt + 1))
       (if attempt = 0 then wait else min (wrap32 (wait * 2)) maxWait) maxWait rs"

definition backoff_next :: "('req, 'rep) CarbonLookasideRoute \<Rightarrow> int \<Rightarrow> int \<Rightarrow> int" where
  "backoff_next c a w =
     (if a \<noteq> 0 then min (wrap32 (w * 2)) (sint (maxWaitMs (leaseSettings c))) else w)"

definition after_sleep :: "int \<Rightarrow> int \<Rightarrow> 'req event list \<Rightarrow> 'req event list" where
  "after_sleep a w t = (if a \<noteq> 0 then t @ [Sleep w] else t)"

text \<open>
  What a run of the loop from \<open>ret\<close> and \<open>tok\<close> with the replies \<open>rs\<close> comes to:
  the result of a run that returns is fixed by the last reply, and a run that uses
  up its fuel has seen one hot miss per unit of fuel.
\<close>

fun lease_result ::
  "'rep codec \<Rightarrow> nat \<Rightarrow> 'rep option \<Rightarrow> int64 \<Rightarrow> ('rep option \<times> int64) outcome
     \<Rightarrow> McLeaseGetReply list \<Rightarrow> bool" where
  "lease_result cd fuel ret tok (Returns (ret', tok')) rs =
     (if rs = [] then ret' = ret \<and> tok' = tok
      else if hit_with_payload (last rs) then
        ret' = Some (reply_object (deserialize cd (the (lg_value (last rs))))) \<and> tok' = tok
      else if hot_miss (last rs) then ret' = ret \<and> tok' = tok
      else if isMissResult (lg_result (last rs)) then
        ret' = ret \<and> tok' = lg_leaseToken (last rs)
      else ret' = ret \<and> tok' = tok)"
| "lease_result cd fuel ret tok OutOfFuel rs = ((\<forall>r \<in> set rs. hot_miss r) \<and> length rs = fuel)"

text \<open>
  How many replies a run from \<open>attempt = a\<close> sees, \<open>n\<close> being \<open>numRetries\<close>. Below
  \<open>INT32_MAX\<close> the counter does not wrap: there are at most \<open>n + 1 - a\<close> replies, and
  a run that returns with no reply or after a hot miss left the loop by its
  condition. At \<open>INT32_MAX\<close> the condition never fails, and a run returns only after
  a reply that is no hot miss.
\<close>

definition lease_count ::
  "int \<Rightarrow> int \<Rightarrow> ('rep option \<times> int64) outcome \<Rightarrow> McLeaseGetReply list \<Rightarrow> bool" where
  "lease_count n a out rs =
     (if n < 2147483647 then
        (0 \<le> a \<longrightarrow>
           length rs \<le> nat (n + 1 - a) \<and>
           (out \<noteq> OutOfFuel \<and> (rs = [] \<or> hot_miss (last rs)) \<longrightarrow> n < a + int (length rs)))
      else (out \<noteq> OutOfFuel \<longrightarrow> rs \<noteq> [] \<and> \<not> hot_miss (last rs)))"

definition loop_post ::
  "'rep codec \<Rightarrow> ('req, 'rep) CarbonLookasideRoute \<Rightarrow> string \<Rightarrow> nat \<Rightarrow> int \<Rightarrow> int
     \<Rightarrow> 'rep option \<Rightarrow> int64 \<Rightarrow> 'req event list \<Rightarrow> ('rep option \<times> int64) outcome
     \<Rightarrow> 'req event list \<Rightarrow> McLeaseGetReply list \<Rightarrow> bool" where
  "loop_post cd c key fuel a w ret tok t out t' rs =
     (t' = t @ lease_events32 key a w (sint (maxWaitMs (leaseSettings c))) rs \<and>
      length rs \<le> fuel \<and>
      (\<forall>r \<in> set (butlast rs). hot_miss r) \<and>
      lease_result cd fuel ret tok out rs \<and>
      lease_count (sint (numRetries (leaseSettings c))) a out rs)"

section \<open>A concrete route\<close>

text \<open>
  The scenario of the specification: a helper with \<^verbatim>\<open>buildKey = "k"\<close>, prefix
  \<^verbatim>\<open>"p:"\<close>, a ttl of 10 seconds. Requests and replies are strings; a reply is
  serialised as two buffers, a two-byte tag and the text; a payload without the
  tag leaves the default-constructed (empty) reply.
\<close>

definition demo_codec :: "string codec" where
  "demo_codec =
     \<lparr>serialize = (\<lambda>r. [''R:'', r]),
      deserialize = (\<lambda>p. if take 2 p = ''R:''
                          then \<lparr>well_formed = True, reply_object = drop 2 p\<rparr>
                          else \<lparr>well_formed = False, reply_object = []\<rparr>)\<rparr>"

definition demo_helper :: "string CarbonLookasideHelper" where
  "demo_helper =
     \<lparr>helper_name = ''demo'', cacheCandidate = (\<lambda>q. q \<noteq> ''nocache''),
      helper_buildKey = (\<lambda>q. ''k'')\<rparr>"

definition demo_child :: "(string, string) RouteHandleIf" where
  "demo_child = \<lparr>rh_name = ''child'', rh_route = (\<lambda>t q. ''re:'' @ q)\<rparr>"

definition demo_get_miss :: McGetReply where
  "demo_get_miss = \<lparr>get_result = ResMiss, get_value = None\<rparr>"

definition demo_get_hit :: "string \<Rightarrow> McGetReply" where
  "demo_get_hit p = \<lparr>get_result = ResHit, get_value = Some p\<rparr>"

definition demo_lease_miss :: "int64 \<Rightarrow> McLeaseGetReply" where
  "demo_lease_miss tok = \<lparr>lg_result = ResMiss, lg_value = None, lg_leaseToken = tok\<rparr>"

definition demo_lease_hit :: "string \<Rightarrow> McLeaseGetReply" where
  "demo_lease_hit p = \<lparr>lg_result = ResHit, lg_value = Some p, lg_leaseToken = 0\<rparr>"

definition demo_leases :: "int32 \<Rightarrow> int32 \<Rightarrow> int32 \<Rightarrow> LeaseSettings" where
  "demo_leases init mx n =
     \<lparr>enableLeases = True, initialWaitMs = init, maxWaitMs = mx, numRetries = n\<rparr>"

text \<open>
  A cache that answers every \<^verbatim>\<open>GET\<close> with \<open>g\<close>, the first \<open>hot\<close>
  \<^verbatim>\<open>LEASE_GET\<close>s with the hot-miss token and the later ones with \<open>final\<close>.
\<close>

definition demo_client ::
  "McGetReply \<Rightarrow> nat \<Rightarrow> McLeaseGetReply \<Rightarrow> string CarbonRouterClient" where
  "demo_client g hot final =
     \<lparr>send_get = (\<lambda>t k. g),
      send_lease_get = (\<lambda>t k. if length (lease_replies t) < hot
                               then demo_lease_miss 1 else final)\<rparr>"

definition demo_route ::
  "LeaseSettings \<Rightarrow> string CarbonRouterClient \<Rightarrow> size_t \<Rightarrow> (string, string) CarbonLookasideRoute" where
  "demo_route ls cl keySplitSize =
     mkCarbonLookasideRoute 6 demo_child (CarbonRouterInstance ''CarbonLookasideClient:web'')
       cl ''p:'' keySplitSize 10 demo_helper ls"

text \<open>
  A factory environment whose route handle factory makes \<open>demo_child\<close> of any
  child specification, with the router and client creation as given.
\<close>

definition demo_factory ::
  "(string \<Rightarrow> string \<Rightarrow> CarbonRouterInstance option)
     \<Rightarrow> (CarbonRouterInstance \<Rightarrow> string + string CarbonRouterClient)
     \<Rightarrow> (string, string) FactoryEnv" where
  "demo_factory mkRouter mkClient =
     \<lparr>factory_create = (\<lambda>j. Some demo_child),
      parseLeaseSettings = (\<lambda>j. Inr defaultLeaseSettings),
      makeHelper = (\<lambda>j. demo_helper),
      createCarbonLookasideRouter = mkRouter,
      createClient = mkClient,
      env_hostid = 6\<rparr>"

definition demo_json :: dynamic where
  "demo_json =
     DObject [(''child'', DString ''PoolRoute|A''), (''ttl'', DInt 10),
              (''key_split_size'', DInt 3), (''prefix'', DString ''reg''),
              (''flavor'', DString ''web'')]"

section \<open>The lease loop\<close>

lemma lease_replies_append [simp]: "lease_replies (xs @ ys) = lease_replies xs @ lease_replies ys"
  by (induction xs rule: lease_replies.induct) auto

lemma lease_replies_events [simp]: "lease_replies (lease_events key f w m rs :: 'req event list) = rs"
  by (induction rs arbitrary: f w) auto

lemma lease_replies_events32 [simp]:
  "lease_replies (lease_events32 key a w m rs :: 'req event list) = rs"
  by (induction rs arbitrary: a w) auto

lemma hot_miss_not_hit: "hot_miss r \<Longrightarrow> \<not> hit_with_payload r"
  by (auto simp: hot_miss_def hit_with_payload_def isMissResult_def isHitResult_def)

lemma callback_cases:
  "leaseGetCallback cd r ret tok =
     (if hit_with_payload r then (Some (reply_object (deserialize cd (the (lg_value r)))), False, tok)
      else if hot_miss r then (ret, True, tok)
      else if isMissResult (lg_result r) then (ret, False, lg_leaseToken r)
      else (ret, False, tok))"
  by (auto simp: leaseGetCallback_def hit_with_payload_def hot_miss_def split: option.splits)

lemma wrap32_id: "in_int32 x \<Longrightarrow> wrap32 x = x"
  by (simp add: wrap32_def in_int32_def)

lemma wrap32_range: "in_int32 (wrap32 x)"
proof -
  have "0 \<le> (x + 2147483648) mod 4294967296" "(x + 2147483648) mod 4294967296 < 4294967296"
    by simp_all
  then show ?thesis by (simp add: wrap32_def in_int32_def)
qed

lemma sint32_range: "in_int32 (sint (x :: int32))"
  using sint_ge [of x] sint_lt [of x] by (simp add: in_int32_def)

lemma loop_no_fuel: "leaseGetLoop cd c key 0 a w ret tok t = (OutOfFuel, t)"
  by (simp add: leaseGetLoop.simps)

lemma loop_exit:
  "\<not> a \<le> sint (numRetries (leaseSettings c)) \<Longrightarrow>
   leaseGetLoop cd c key (Suc n) a w ret tok t = (Returns (ret, tok), t)"
  by (simp add: leaseGetLoop.simps)

lemma loop_step:
  assumes "a \<le> sint (numRetries (leaseSettings c))"
  shows "leaseGetLoop cd c key (Suc n) a w ret tok t =
     (let t1 = after_sleep a w t;
          r = send_lease_get (client c) t1 key;
          t2 = t1 @ [SendLeaseGet key r]
      in if hit_with_payload r then
           (Returns (Some (reply_object (deserialize cd (the (lg_value r)))), tok), t2)
         else if hot_miss r then
           leaseGetLoop cd c key n (wrap32 (a + 1)) (backoff_next c a w) ret tok t2
         else if isMissResult (lg_result r) then (Returns (ret, lg_leaseToken r), t2)
         else (Returns (ret, tok), t2))"
  using assms
  by (subst leaseGetLoop.simps)
     (auto simp: Let_def callback_cases after_sleep_def backoff_next_def)

lemma lease_result_cons:
  assumes "lease_result cd n ret tok out rs" and "hot_miss r"
  shows "lease_result cd (Suc n) ret tok out (r # rs)"
proof (cases out)
  case OutOfFuel
  with assms show ?thesis by simp
next
  case (Returns p)
  obtain ret' tok' where p: "p = (ret', tok')" by (cases p)
  show ?thesis
  proof (cases "rs = []")
    case True
    with assms Returns p show ?thesis
      by (simp add: hot_miss_not_hit)
  next
    case False
    with assms Returns p show ?thesis
      by (simp split: if_splits)
  qed
qed

lemma lease_count_cons:
  assumes "lease_count n (wrap32 (a + 1)) out rs" and "hot_miss r" and "a \<le> n"
    and "in_int32 a"
  shows "lease_count n a out (r # rs)"
proof (cases "n < 2147483647")
  case small: True
  show ?thesis
  proof (cases "0 \<le> a")
    case False
    with small show ?thesis by (simp add: lease_count_def)
  next
    case a0: True
    have "in_int32 (a + 1)"
      using a0 assms(3) small by (simp add: in_int32_def)
    then have w: "wrap32 (a + 1) = a + 1" by (rule wrap32_id)
    from assms(1) small a0
    have len: "length rs \<le> nat (n + 1 - (a + 1))"
      and ex: "out \<noteq> OutOfFuel \<and> (rs = [] \<or> hot_miss (last rs)) \<longrightarrow> n < a + 1 + int (length rs)"
      by (simp_all add: lease_count_def w)
    from len assms(3) have 1: "length (r # rs) \<le> nat (n + 1 - a)"
      by simp
    have 2: "n < a + int (length (r # rs))"
      if "out \<noteq> OutOfFuel" and "hot_miss (last (r # rs))"
    proof (cases "rs = []")
      case True
      with ex that(1) show ?thesis by simp
    next
      case False
      with that have "hot_miss (last rs)" by simp
      with ex that(1) show ?thesis by simp
    qed
    from 1 2 small show ?thesis
      unfolding lease_count_def by (simp del: last.simps length_Cons list.size)
  qed
next
  case False
  with assms(1) have "out \<noteq> OutOfFuel \<longrightarrow> rs \<noteq> [] \<and> \<not> hot_miss (last rs)"
    by (simp add: lease_count_def)
  with False show ?thesis
    by (auto simp: lease_count_def)
qed

lemma loop_shape:
  assumes "leaseGetLoop cd c key fuel a w ret tok t = (out, t')" and "in_int32 a"
  shows "\<exists>rs. loop_post cd c key fuel a w ret tok t out t' rs"
  using assms
proof (induction fuel arbitrary: a w t out t')
  case 0
  then have "out = OutOfFuel" "t' = t"
    by (simp_all add: loop_no_fuel)
  then have "loop_post cd c key 0 a w ret tok t out t' []"
    by (simp add: loop_post_def lease_count_def)
  then show ?case by blast
next
  case (Suc n)
  show ?case
  proof (cases "a \<le> sint (numRetries (leaseSettings c))")
    case False
    with Suc.prems(1) have o: "out = Returns (ret, tok)" "t' = t"
      by (simp_all add: loop_exit)
    have "sint (numRetries (leaseSettings c)) \<le> 2147483647"
      using sint32_range [of "numRetries (leaseSettings c)"] by (simp add: in_int32_def)
    with False Suc.prems(2) o have "loop_post cd c key (Suc n) a w ret tok t out t' []"
      by (auto simp: loop_post_def lease_count_def in_int32_def)
    then show ?thesis by blast
  next
    case le: True
    define t1 where "t1 = after_sleep a w t"
    define r where "r = send_lease_get (client c) t1 key"
    define t2 where "t2 = t1 @ [SendLeaseGet key r]"
    note step = loop_step [OF le, of cd key n w ret tok t, folded t1_def, unfolded Let_def,
        folded r_def, folded t2_def]
    have t2: "t2 = t @ lease_events32 key a w (sint (maxWaitMs (leaseSettings c))) [r]"
      by (simp add: t2_def t1_def after_sleep_def)
    show ?thesis
    proof (cases "hot_miss r")
      case False
      with step Suc.prems(1) t2 le have "loop_post cd c key (Suc n) a w ret tok t out t' [r]"
        by (auto split: if_splits simp: loop_post_def lease_count_def)
      then show ?thesis by blast
    next
      case hot: True
      with step Suc.prems(1)
      have rec: "leaseGetLoop cd c key n (wrap32 (a + 1)) (backoff_next c a w) ret tok t2
          = (out, t')"
        by (simp add: hot_miss_not_hit)
      from Suc.IH [OF rec wrap32_range]
      obtain rs where
        rs: "loop_post cd c key n (wrap32 (a + 1)) (backoff_next c a w) ret tok t2 out t' rs"
        by blast
      have ev: "t2 @ lease_events32 key (wrap32 (a + 1)) (backoff_next c a w)
                  (sint (maxWaitMs (leaseSettings c))) rs
          = t @ lease_events32 key a w (sint (maxWaitMs (leaseSettings c))) (r # rs)"
        by (simp add: t2_def t1_def after_sleep_def backoff_next_def)
      have "loop_post cd c key (Suc n) a w ret tok t out t' (r # rs)"
      proof -
        have 1: "t' = t @ lease_events32 key a w (sint (maxWaitMs (leaseSettings c))) (r # rs)"
          using rs ev by (simp add: loop_post_def)
        have 2: "length (r # rs) \<le> Suc n"
          using rs by (simp add: loop_post_def)
        have 3: "\<forall>x \<in> set (butlast (r # rs)). hot_miss x"
          using rs hot by (simp add: loop_post_def)
        have 4: "lease_result cd (Suc n) ret tok out (r # rs)"
          using rs hot by (intro lease_result_cons) (simp_all add: loop_post_def)
        have 5: "lease_count (sint (numRetries (leaseSettings c))) a out (r # rs)"
          using rs hot le Suc.prems(2)
          by (intro lease_count_cons) (simp_all add: loop_post_def)
        from 1 2 3 4 5 show ?thesis
          unfolding loop_post_def by blast
      qed
      then show ?thesis by blast
    qed
  qed
qed


lemma lease_events32_read:
  "\<forall>e \<in> set (lease_events32 key a w m rs). is_read_event key e"
  by (induction rs arbitrary: a w) auto

lemma lease_events32_empty [simp]: "lease_events32 key a w m rs = [] \<longleftrightarrow> rs = []"
  by (cases rs) auto

lemma lease_events32_last:
  "rs \<noteq> [] \<Longrightarrow> last (lease_events32 key a w m rs) = SendLeaseGet key (last rs)"
  by (induction rs arbitrary: a w) auto

lemma lease_get_shape:
  assumes "carbonLookasideLeaseGet cd c fuel key t = (out, t')"
  shows "\<exists>rs. loop_post cd c key fuel 0 (sint (initialWaitMs (leaseSettings c))) None 0
                t out t' rs"
  using assms loop_shape [of cd c key fuel 0 _ None 0 t out t']
  by (simp add: carbonLookasideLeaseGet_def in_int32_def)

lemma lease_get_summary:
  fixes t :: "'req event list"
  assumes "carbonLookasideLeaseGet cd c fuel key t = (out, t')"
  shows "\<exists>rs.
     t' = t @ lease_events32 key 0 (sint (initialWaitMs (leaseSettings c)))
                 (sint (maxWaitMs (leaseSettings c))) rs \<and>
     rs = lease_replies (drop (length t) t') \<and>
     length rs \<le> fuel \<and>
     (\<forall>r \<in> set (butlast rs). hot_miss r) \<and>
     (\<forall>ret tok. out = Returns (ret, tok) \<longrightarrow>
        (rs \<noteq> [] \<and> hot_miss (last rs) \<longrightarrow>
           int (length rs) = sint (numRetries (leaseSettings c)) + 1 \<and> ret = None \<and> tok = 0) \<and>
        (rs \<noteq> [] \<and> isMissResult (lg_result (last rs)) \<and>
         lg_leaseToken (last rs) \<noteq> kLeaseHotMissToken \<longrightarrow>
           ret = None \<and> tok = lg_leaseToken (last rs)) \<and>
        (rs \<noteq> [] \<and> hit_with_payload (last rs) \<longrightarrow>
           (\<exists>payload. lg_value (last rs) = Some payload \<and>
              ret = Some (reply_object (deserialize cd payload))) \<and> tok = 0)) \<and>
     (out = OutOfFuel \<longrightarrow> (\<forall>r \<in> set rs. hot_miss r) \<and> length rs = fuel) \<and>
     (sint (numRetries (leaseSettings c)) < 2147483647 \<longrightarrow>
        length rs \<le> nat (sint (numRetries (leaseSettings c)) + 1))"
proof -
  let ?w = "sint (initialWaitMs (leaseSettings c))"
  let ?m = "sint (maxWaitMs (leaseSettings c))"
  let ?n = "sint (numRetries (leaseSettings c))"
  from lease_get_shape [OF assms] obtain rs where
    post: "loop_post cd c key fuel 0 ?w None 0 t out t' rs"
    by blast
  then have t': "t' = t @ lease_events32 key 0 ?w ?m rs"
    and len: "length rs \<le> fuel"
    and hot: "\<forall>r \<in> set (butlast rs). hot_miss r"
    and res: "lease_result cd fuel None 0 out rs"
    and cnt: "lease_count ?n 0 out rs"
    by (simp_all add: loop_post_def)
  have rs: "rs = lease_replies (drop (length t) t')"
    by (simp add: t')
  have bound: "length rs \<le> nat (?n + 1)" if "?n < 2147483647"
    using cnt that by (simp add: lease_count_def)
  have fin: "(rs \<noteq> [] \<and> hot_miss (last rs) \<longrightarrow> int (length rs) = ?n + 1 \<and> ret = None \<and> tok = 0) \<and>
        (rs \<noteq> [] \<and> isMissResult (lg_result (last rs)) \<and>
         lg_leaseToken (last rs) \<noteq> kLeaseHotMissToken \<longrightarrow>
           ret = None \<and> tok = lg_leaseToken (last rs)) \<and>
        (rs \<noteq> [] \<and> hit_with_payload (last rs) \<longrightarrow>
           (\<exists>payload. lg_value (last rs) = Some payload \<and>
              ret = Some (reply_object (deserialize cd payload))) \<and> tok = 0)"
    if "out = Returns (ret, tok)" for ret tok
  proof -
    have r: "lease_result cd fuel None 0 (Returns (ret, tok)) rs"
      using res unfolding that .
    have c: "lease_count ?n 0 (Returns (ret, tok)) rs"
      using cnt unfolding that .
    show ?thesis
    proof (cases "rs = []")
      case True
      then show ?thesis by simp
    next
      case False
      consider (hit) "hit_with_payload (last rs)"
        | (hot) "\<not> hit_with_payload (last rs)" "hot_miss (last rs)"
        | (miss) "\<not> hit_with_payload (last rs)" "\<not> hot_miss (last rs)"
            "isMissResult (lg_result (last rs))"
        | (other) "\<not> hit_with_payload (last rs)" "\<not> hot_miss (last rs)"
            "\<not> isMissResult (lg_result (last rs))"
        by blast
      then show ?thesis
      proof cases
        case hit
        then have "\<not> hot_miss (last rs)" "\<not> isMissResult (lg_result (last rs))"
          using hot_miss_not_hit
          by (auto simp: hit_with_payload_def isHitResult_def isMissResult_def)
        with hit r False show ?thesis by (auto simp: hit_with_payload_def)
      next
        case hot
        with r False have rt: "ret = None \<and> tok = 0" by simp
        have small: "?n < 2147483647"
        proof (rule ccontr)
          assume "\<not> ?n < 2147483647"
          with c have "\<not> hot_miss (last rs)" by (simp add: lease_count_def)
          with hot show False by simp
        qed
        with c hot(2) have "length rs \<le> nat (?n + 1)" and "?n < int (length rs)"
          by (simp_all add: lease_count_def)
        then have "int (length rs) = ?n + 1"
          using False by (cases "0 \<le> ?n + 1") (auto simp: le_nat_iff)
        with rt hot show ?thesis by (auto simp: hot_miss_def)
      next
        case miss
        with r False have "ret = None \<and> tok = lg_leaseToken (last rs)" by simp
        with miss show ?thesis by (auto simp: hot_miss_def)
      next
        case other
        with r False show ?thesis by (auto simp: hot_miss_def)
      qed
    qed
  qed
  have ovf: "(\<forall>r \<in> set rs. hot_miss r) \<and> length rs = fuel" if "out = OutOfFuel"
    using res unfolding that by simp
  from t' rs len hot fin ovf bound show ?thesis by blast
qed

lemma lease_get_returns:
  assumes "sint (numRetries (leaseSettings c)) < 2147483647"
    and "nat (sint (numRetries (leaseSettings c)) + 1) < fuel"
  shows "fst (carbonLookasideLeaseGet cd c fuel key t) \<noteq> OutOfFuel"
proof
  assume o: "fst (carbonLookasideLeaseGet cd c fuel key t) = OutOfFuel"
  obtain t' where "carbonLookasideLeaseGet cd c fuel key t = (OutOfFuel, t')"
    using o by (cases "carbonLookasideLeaseGet cd c fuel key t") auto
  from lease_get_summary [OF this] assms(1) obtain rs :: "McLeaseGetReply list" where
    "length rs = fuel" "length rs \<le> nat (sint (numRetries (leaseSettings c)) + 1)"
    by blast
  with assms(2) show False by simp
qed

lemma last_of_non_butlast:
  assumes "r \<in> set rs" and "r \<notin> set (butlast rs)"
  shows "rs \<noteq> [] \<and> last rs = r"
  using assms by (cases rs rule: rev_cases) auto

lemma read_trace:
  assumes "carbonLookasideGet cd c fuel key tok0 t = (out, t')"
  shows "\<exists>new. t' = t @ new \<and> (\<forall>e \<in> set new. is_read_event key e)"
proof (cases "enableLeases (leaseSettings c)")
  case True
  with assms have "carbonLookasideLeaseGet cd c fuel key t = (out, t')"
    by (simp add: carbonLookasideGet_def)
  from lease_get_shape [OF this] obtain rs where
    "loop_post cd c key fuel 0 (sint (initialWaitMs (leaseSettings c))) None 0 t out t' rs"
    by blast
  then have "t' = t @ lease_events32 key 0 (sint (initialWaitMs (leaseSettings c)))
      (sint (maxWaitMs (leaseSettings c))) rs"
    by (simp add: loop_post_def)
  then show ?thesis
    using lease_events32_read [of key 0 _ _ rs] by auto
next
  case False
  with assms show ?thesis
    by (auto simp: carbonLookasideGet_def carbonLookasideGet_plain_def Let_def)
qed

lemma read_hit:
  fixes t :: "'req event list"
  assumes "carbonLookasideGet cd c fuel key tok0 t = (Returns (Some r, tok), t')"
  shows "\<exists>new payload. t' = t @ new \<and> new \<noteq> [] \<and> (\<forall>e \<in> set new. is_read_event key e) \<and>
           cached_payload (last new) = Some payload \<and>
           r = reply_object (deserialize cd payload)"
proof (cases "enableLeases (leaseSettings c)")
  case True
  with assms have "carbonLookasideLeaseGet cd c fuel key t = (Returns (Some r, tok), t')"
    by (simp add: carbonLookasideGet_def)
  from lease_get_shape [OF this] obtain rs where
    post: "loop_post cd c key fuel 0 (sint (initialWaitMs (leaseSettings c))) None 0 t
             (Returns (Some r, tok)) t' rs"
    by blast
  then have res: "lease_result cd fuel None 0 (Returns (Some r, tok)) rs"
    unfolding loop_post_def by blast
  then have ne: "rs \<noteq> []" and hit: "hit_with_payload (last rs)"
    and r: "r = reply_object (deserialize cd (the (lg_value (last rs))))"
    by (auto split: if_splits)
  define new :: "'req event list" where "new = lease_events32 key 0
     (sint (initialWaitMs (leaseSettings c))) (sint (maxWaitMs (leaseSettings c))) rs"
  from post have t': "t' = t @ new" by (simp add: loop_post_def new_def)
  from hit obtain payload where p: "lg_value (last rs) = Some payload"
    and h: "isHitResult (lg_result (last rs))"
    by (auto simp: hit_with_payload_def)
  have "last new = SendLeaseGet key (last rs)"
    using ne by (simp add: new_def lease_events32_last)
  with p h have "cached_payload (last new) = Some payload" by simp
  moreover have "new \<noteq> []" using ne by (simp add: new_def)
  moreover have "\<forall>e \<in> set new. is_read_event key e"
    unfolding new_def by (rule lease_events32_read)
  ultimately show ?thesis using t' r p by auto
next
  case False
  with assms show ?thesis
    by (auto simp: carbonLookasideGet_def carbonLookasideGet_plain_def Let_def
        split: if_splits option.splits)
qed

lemma read_events_no_child:
  "\<forall>e \<in> set new. is_read_event key e \<Longrightarrow> filter is_child_call new = []"
proof (induction new)
  case Nil
  show ?case by simp
next
  case (Cons e es)
  then show ?case by (cases e) auto
qed

lemma read_events_no_write:
  "\<forall>e \<in> set new. is_read_event key e \<Longrightarrow> filter is_write new = []"
proof (induction new)
  case Nil
  show ?case by simp
next
  case (Cons e es)
  then show ?case by (cases e) auto
qed

lemma serializeOffFiber_concat: "serializeOffFiber cd reply = concat (serialize cd reply)"
proof -
  have "foldl (\<lambda>body iov. body @ iov) acc xs = acc @ concat xs" for acc :: string and xs
    by (induction xs arbitrary: acc) auto
  then show ?thesis by (simp add: serializeOffFiber_def)
qed

lemma route_hit_eq:
  assumes "cacheCandidate (carbonLookasideHelper c) req"
    and "carbonLookasideGet cd c fuel (buildKey c req) 0 t = (Returns (Some r, tok), t1)"
  shows "route cd c fuel req t = (Returns r, t1)"
  using assms by (simp add: route_def)

lemma route_miss_eq:
  assumes "cacheCandidate (carbonLookasideHelper c) req"
    and "carbonLookasideGet cd c fuel (buildKey c req) 0 t = (Returns (None, tok), t1)"
  shows "route cd c fuel req t =
     (Returns (rh_route (child c) t1 req),
      carbonLookasideSet cd c (buildKey c req) (rh_route (child c) t1 req) tok
        (t1 @ [ChildRoute req]))"
  using assms by (simp add: route_def route_child_def Let_def)

lemmas demo_defs =
  demo_route_def mkCarbonLookasideRoute_def demo_helper_def demo_child_def demo_client_def
  demo_codec_def demo_get_miss_def demo_get_hit_def demo_lease_miss_def demo_lease_hit_def
  demo_leases_def defaultLeaseSettings_def buildKey_def buildKeySuffix_def
  carbonLookasideGet_def carbonLookasideGet_plain_def carbonLookasideLeaseGet_def
  carbonLookasideSet_def carbonLookasideSet_plain_def carbonLookasideLeaseSet_def
  serializeOffFiber_def isHitResult_def isMissResult_def hit_with_payload_def hot_miss_def
  kLeaseHotMissToken_def

section \<open>Properties of the route\<close>

text \<open>
  C7. A request the helper does not accept as a cache candidate goes to the child and
  nowhere else: the route adds one event to the trace, the call of the child, so no
  \<^verbatim>\<open>GET\<close>, \<^verbatim>\<open>LEASE_GET\<close>, \<^verbatim>\<open>SET\<close> or \<^verbatim>\<open>LEASE_SET\<close> is issued, and it returns the
  child's reply.
\<close>

theorem route_non_candidate:
  assumes "\<not> cacheCandidate (carbonLookasideHelper c) req"
  shows "route cd c fuel req t = (Returns (rh_route (child c) t req), t @ [ChildRoute req]) \<and>
         filter is_cache_op (drop (length t) (snd (route cd c fuel req t))) = [] \<and>
         filter is_child_call (drop (length t) (snd (route cd c fuel req t))) = [ChildRoute req]"
  using assms by (simp add: route_def route_child_def Let_def)

theorem route_non_candidate_witness:
  "route demo_codec (demo_route defaultLeaseSettings (demo_client demo_get_miss 0 (demo_lease_miss 0)) 1)
      10 ''nocache'' []
    = (Returns ''re:nocache'', [ChildRoute ''nocache''])"
  using route_non_candidate [of "demo_route defaultLeaseSettings
      (demo_client demo_get_miss 0 (demo_lease_miss 0)) 1" "''nocache''" demo_codec 10 "[]"]
  by (simp add: demo_route_def mkCarbonLookasideRoute_def demo_helper_def demo_child_def)

text \<open>
  C1. When the request is a cache candidate and the cache read comes back with a
  reply, \<open>route\<close> returns that reply with the trace the read left: the reply is the
  deserialisation of the payload of the last read, which was a hit, and the events
  added hold no call of the child.
\<close>

theorem route_cache_hit:
  assumes "cacheCandidate (carbonLookasideHelper c) req"
    and "carbonLookasideGet cd c fuel (buildKey c req) 0 t = (Returns (Some r, tok), t1)"
  shows "route cd c fuel req t = (Returns r, t1) \<and>
         (\<exists>new payload. snd (route cd c fuel req t) = t @ new \<and> new \<noteq> [] \<and>
            filter is_child_call new = [] \<and>
            cached_payload (last new) = Some payload \<and>
            r = reply_object (deserialize cd payload))"
proof -
  have eq: "route cd c fuel req t = (Returns r, t1)"
    using assms by (rule route_hit_eq)
  from read_hit [OF assms(2)] obtain new payload where
    "t1 = t @ new" "new \<noteq> []" "\<forall>e \<in> set new. is_read_event (buildKey c req) e"
    "cached_payload (last new) = Some payload" "r = reply_object (deserialize cd payload)"
    by blast
  with eq show ?thesis
    using read_events_no_child [of new "buildKey c req"] by auto
qed

theorem route_cache_hit_witness:
  "route demo_codec (demo_route defaultLeaseSettings
      (demo_client (demo_get_hit ''R:cached'') 0 (demo_lease_miss 0)) 1) 10 ''q'' []
    = (Returns ''cached'', [SendGet ''p:k'' (demo_get_hit ''R:cached'')])"
proof -
  let ?c = "demo_route defaultLeaseSettings
      (demo_client (demo_get_hit ''R:cached'') 0 (demo_lease_miss 0)) 1"
  have cand: "cacheCandidate (carbonLookasideHelper ?c) ''q''"
    by (simp add: demo_defs)
  have rd: "carbonLookasideGet demo_codec ?c 10 (buildKey ?c ''q'') 0 []
      = (Returns (Some ''cached'', 0), [SendGet ''p:k'' (demo_get_hit ''R:cached'')])"
    by (simp add: demo_defs)
  from route_cache_hit [OF cand rd] show ?thesis by simp
qed

text \<open>
  C2. When the request is a cache candidate and the cache read comes back without a
  reply, \<open>route\<close> calls the child once, after the read, and returns the reply of
  that call. (A request that is no candidate has no read: see C7.)
\<close>

theorem route_cache_miss:
  assumes "cacheCandidate (carbonLookasideHelper c) req"
    and "carbonLookasideGet cd c fuel (buildKey c req) 0 t = (Returns (None, tok), t1)"
  shows "fst (route cd c fuel req t) = Returns (rh_route (child c) t1 req) \<and>
         filter is_child_call (drop (length t) (snd (route cd c fuel req t))) = [ChildRoute req]"
proof -
  from read_trace [OF assms(2)] obtain new where
    new: "t1 = t @ new" "\<forall>e \<in> set new. is_read_event (buildKey c req) e"
    by blast
  have "filter is_child_call new = []"
    using new(2) by (rule read_events_no_child)
  then show ?thesis
    unfolding route_miss_eq [OF assms]
    by (simp add: new(1) carbonLookasideSet_def carbonLookasideSet_plain_def
        carbonLookasideLeaseSet_def)
qed

theorem route_cache_miss_witness:
  "route demo_codec (demo_route defaultLeaseSettings
      (demo_client demo_get_miss 0 (demo_lease_miss 0)) 1) 10 ''q'' []
    = (Returns ''re:q'',
       [SendGet ''p:k'' demo_get_miss, ChildRoute ''q'',
        SendSet \<lparr>set_key = ''p:k'', set_exptime = 10, set_value = ''R:re:q''\<rparr>])"
proof -
  let ?c = "demo_route defaultLeaseSettings (demo_client demo_get_miss 0 (demo_lease_miss 0)) 1"
  have cand: "cacheCandidate (carbonLookasideHelper ?c) ''q''"
    by (simp add: demo_defs)
  have rd: "carbonLookasideGet demo_codec ?c 10 (buildKey ?c ''q'') 0 []
      = (Returns (None, 0), [SendGet ''p:k'' demo_get_miss])"
    by (simp add: demo_defs)
  have "snd (route demo_codec ?c 10 ''q'' []) =
       [SendGet ''p:k'' demo_get_miss, ChildRoute ''q'',
        SendSet \<lparr>set_key = ''p:k'', set_exptime = 10, set_value = ''R:re:q''\<rparr>]"
    by (simp add: route_miss_eq [OF cand rd]) (simp add: demo_defs)
  moreover from route_cache_miss [OF cand rd]
  have "fst (route demo_codec ?c 10 ''q'' []) = Returns ''re:q''"
    by (simp add: demo_defs)
  ultimately show ?thesis by (simp add: prod_eq_iff)
qed

text \<open>
  C5. The write after a miss. When the request is a cache candidate and the read
  came back without a reply and with lease token \<open>tok\<close>, the route hands over one
  write, after the call of the child: a \<^verbatim>\<open>LEASE_SET\<close> with the key, the serialised
  reply of the child, the ttl and the token when leases are enabled and the token is
  not 0, and a \<^verbatim>\<open>SET\<close> with the key, the serialised reply and the ttl otherwise.
\<close>

theorem write_after_miss:
  assumes "cacheCandidate (carbonLookasideHelper c) req"
    and "carbonLookasideGet cd c fuel (buildKey c req) 0 t = (Returns (None, tok), t1)"
  shows "snd (route cd c fuel req t) =
           t1 @ [ChildRoute req,
                 if enableLeases (leaseSettings c) \<and> tok \<noteq> 0
                 then SendLeaseSet \<lparr>ls_key = buildKey c req, ls_exptime = ttl c,
                        ls_leaseToken = tok,
                        ls_value = concat (serialize cd (rh_route (child c) t1 req))\<rparr>
                 else SendSet \<lparr>set_key = buildKey c req, set_exptime = ttl c,
                        set_value = concat (serialize cd (rh_route (child c) t1 req))\<rparr>] \<and>
         length (filter is_write (drop (length t) (snd (route cd c fuel req t)))) = 1"
proof -
  from read_trace [OF assms(2)] obtain new where
    new: "t1 = t @ new" "\<forall>e \<in> set new. is_read_event (buildKey c req) e"
    by blast
  have "filter is_write new = []"
    using new(2) by (rule read_events_no_write)
  then show ?thesis
    unfolding route_miss_eq [OF assms]
    by (simp add: new(1) carbonLookasideSet_def carbonLookasideSet_plain_def
        carbonLookasideLeaseSet_def serializeOffFiber_concat)
qed

theorem write_after_miss_witness:
  "snd (route demo_codec (demo_route (demo_leases 2 8 3)
      (demo_client demo_get_miss 0 (demo_lease_miss 42)) 1) 10 ''q'' [])
    = [SendLeaseGet ''p:k'' (demo_lease_miss 42), ChildRoute ''q'',
       SendLeaseSet \<lparr>ls_key = ''p:k'', ls_exptime = 10, ls_leaseToken = 42,
         ls_value = ''R:re:q''\<rparr>]"
proof -
  let ?c = "demo_route (demo_leases 2 8 3) (demo_client demo_get_miss 0 (demo_lease_miss 42)) 1"
  have cand: "cacheCandidate (carbonLookasideHelper ?c) ''q''"
    by (simp add: demo_defs)
  have key: "buildKey ?c ''q'' = ''p:k''"
    by (simp add: demo_route_def mkCarbonLookasideRoute_def demo_helper_def buildKey_def
        buildKeySuffix_def)
  have "carbonLookasideGet demo_codec ?c 10 ''p:k'' 0 []
      = (Returns (None, 42), [SendLeaseGet ''p:k'' (demo_lease_miss 42)])"
    by code_simp
  then have rd: "carbonLookasideGet demo_codec ?c 10 (buildKey ?c ''q'') 0 []
      = (Returns (None, 42), [SendLeaseGet ''p:k'' (demo_lease_miss 42)])"
    by (simp only: key)
  have en: "enableLeases (leaseSettings ?c)"
    by (simp add: demo_route_def mkCarbonLookasideRoute_def demo_leases_def)
  from write_after_miss [OF cand rd]
  have "snd (route demo_codec ?c 10 ''q'' []) =
     [SendLeaseGet ''p:k'' (demo_lease_miss 42)] @ [ChildRoute ''q'',
       if enableLeases (leaseSettings ?c) \<and> (42 :: int64) \<noteq> 0
       then SendLeaseSet \<lparr>ls_key = buildKey ?c ''q'', ls_exptime = ttl ?c,
              ls_leaseToken = 42,
              ls_value = concat (serialize demo_codec
                (rh_route (child ?c) [SendLeaseGet ''p:k'' (demo_lease_miss 42)] ''q''))\<rparr>
       else SendSet \<lparr>set_key = buildKey ?c ''q'', set_exptime = ttl ?c,
              set_value = concat (serialize demo_codec
                (rh_route (child ?c) [SendLeaseGet ''p:k'' (demo_lease_miss 42)] ''q''))\<rparr>]"
    by blast
  then have "snd (route demo_codec ?c 10 ''q'' []) =
     [SendLeaseGet ''p:k'' (demo_lease_miss 42)] @ [ChildRoute ''q'',
       SendLeaseSet \<lparr>ls_key = ''p:k'', ls_exptime = ttl ?c, ls_leaseToken = 42,
              ls_value = concat (serialize demo_codec
                (rh_route (child ?c) [SendLeaseGet ''p:k'' (demo_lease_miss 42)] ''q''))\<rparr>]"
    unfolding key using en by simp
  then show ?thesis
    by (simp add: demo_route_def mkCarbonLookasideRoute_def demo_child_def demo_codec_def)
qed




lemma lease_miss_last:
  fixes t :: "'req event list"
  assumes run: "carbonLookasideLeaseGet cd c fuel key t = (out, t1)"
    and r: "r \<in> set (lease_replies (drop (length t) t1))"
    and miss: "isMissResult (lg_result r)" "lg_leaseToken r \<noteq> kLeaseHotMissToken"
  shows "out = Returns (None, lg_leaseToken r) \<and>
         last (drop (length t) t1) = SendLeaseGet key r \<and>
         r \<notin> set (butlast (lease_replies (drop (length t) t1)))"
proof -
  from lease_get_summary [OF run] obtain rs where
    t1: "t1 = t @ lease_events32 key 0 (sint (initialWaitMs (leaseSettings c)))
                 (sint (maxWaitMs (leaseSettings c))) rs"
    and rs: "rs = lease_replies (drop (length t) t1)"
    and hot: "\<forall>r \<in> set (butlast rs). hot_miss r"
    and fin: "\<forall>ret tok. out = Returns (ret, tok) \<longrightarrow>
        (rs \<noteq> [] \<and> hot_miss (last rs) \<longrightarrow>
           int (length rs) = sint (numRetries (leaseSettings c)) + 1 \<and> ret = None \<and> tok = 0) \<and>
        (rs \<noteq> [] \<and> isMissResult (lg_result (last rs)) \<and>
         lg_leaseToken (last rs) \<noteq> kLeaseHotMissToken \<longrightarrow>
           ret = None \<and> tok = lg_leaseToken (last rs)) \<and>
        (rs \<noteq> [] \<and> hit_with_payload (last rs) \<longrightarrow>
           (\<exists>payload. lg_value (last rs) = Some payload \<and>
              ret = Some (reply_object (deserialize cd payload))) \<and> tok = 0)"
    and ovf: "out = OutOfFuel \<longrightarrow> (\<forall>r \<in> set rs. hot_miss r) \<and> length rs = fuel"
    by (elim exE conjE) (rule that)
  have nothot: "\<not> hot_miss r" using miss by (simp add: hot_miss_def)
  with hot have nb: "r \<notin> set (butlast rs)" by blast
  with r rs have ne: "rs \<noteq> []" and last: "last rs = r"
    using last_of_non_butlast [of r rs] by simp_all
  have "out \<noteq> OutOfFuel"
    using ovf r rs nothot by blast
  then obtain ret tok where out: "out = Returns (ret, tok)"
    by (cases out) auto
  have m: "isMissResult (lg_result (last rs))" "lg_leaseToken (last rs) \<noteq> kLeaseHotMissToken"
    using miss last by simp_all
  from fin [rule_format, OF out] ne m
  have "ret = None \<and> tok = lg_leaseToken (last rs)"
    by blast
  then have res: "out = Returns (None, lg_leaseToken r)"
    using out last by simp
  have new: "drop (length t) t1 = lease_events32 key 0 (sint (initialWaitMs (leaseSettings c)))
                 (sint (maxWaitMs (leaseSettings c))) rs"
    by (subst t1) simp
  have "last (drop (length t) t1) = SendLeaseGet key r"
    unfolding new using ne last by (simp add: lease_events32_last)
  moreover have "r \<notin> set (butlast (lease_replies (drop (length t) t1)))"
    using nb unfolding rs .
  ultimately show ?thesis
    using res by blast
qed

text \<open>
  C10. A lease read in which a \<^verbatim>\<open>LEASE_GET\<close> comes back as a miss with lease token 0
  ends with that reply: its event is the last of the read, so no sleep and no
  further \<^verbatim>\<open>LEASE_GET\<close> follow; the read returns no reply and the token 0. The route
  then calls the child and hands over a plain \<^verbatim>\<open>SET\<close>, not a \<^verbatim>\<open>LEASE_SET\<close>.
\<close>

theorem lease_miss_token_zero:
  fixes t :: "'req event list"
  assumes "cacheCandidate (carbonLookasideHelper c) req"
    and "enableLeases (leaseSettings c)"
    and "carbonLookasideLeaseGet cd c fuel (buildKey c req) t = (out, t1)"
    and "r \<in> set (lease_replies (drop (length t) t1))"
    and "isMissResult (lg_result r)" and "lg_leaseToken r = 0"
  shows "out = Returns (None, 0) \<and>
         last (drop (length t) t1) = SendLeaseGet (buildKey c req) r \<and>
         r \<notin> set (butlast (lease_replies (drop (length t) t1))) \<and>
         route cd c fuel req t =
           (Returns (rh_route (child c) t1 req),
            t1 @ [ChildRoute req,
                  SendSet \<lparr>set_key = buildKey c req, set_exptime = ttl c,
                    set_value = concat (serialize cd (rh_route (child c) t1 req))\<rparr>])"
proof -
  have "lg_leaseToken r \<noteq> kLeaseHotMissToken"
    using assms(6) by (simp add: kLeaseHotMissToken_def)
  from lease_miss_last [OF assms(3,4,5) this] assms(6)
  have 1: "out = Returns (None, 0)"
    and 2: "last (drop (length t) t1) = SendLeaseGet (buildKey c req) r"
    and 3: "r \<notin> set (butlast (lease_replies (drop (length t) t1)))"
    by simp_all
  have "carbonLookasideGet cd c fuel (buildKey c req) 0 t = (Returns (None, 0), t1)"
    using assms(2,3) 1 by (simp add: carbonLookasideGet_def)
  from route_miss_eq [OF assms(1) this]
  have "route cd c fuel req t =
           (Returns (rh_route (child c) t1 req),
            t1 @ [ChildRoute req,
                  SendSet \<lparr>set_key = buildKey c req, set_exptime = ttl c,
                    set_value = concat (serialize cd (rh_route (child c) t1 req))\<rparr>])"
    by (simp add: carbonLookasideSet_def carbonLookasideSet_plain_def serializeOffFiber_concat)
  with 1 2 3 show ?thesis by blast
qed

theorem lease_miss_token_zero_witness:
  "route demo_codec (demo_route (demo_leases 2 8 3)
      (demo_client demo_get_miss 1 (demo_lease_miss 0)) 1) 10 ''q'' []
    = (Returns ''re:q'',
       [SendLeaseGet ''p:k'' (demo_lease_miss 1), Sleep 2,
        SendLeaseGet ''p:k'' (demo_lease_miss 0), ChildRoute ''q'',
        SendSet \<lparr>set_key = ''p:k'', set_exptime = 10, set_value = ''R:re:q''\<rparr>])"
proof -
  let ?c = "demo_route (demo_leases 2 8 3) (demo_client demo_get_miss 1 (demo_lease_miss 0)) 1"
  let ?T = "[SendLeaseGet ''p:k'' (demo_lease_miss 1), Sleep 2,
        SendLeaseGet ''p:k'' (demo_lease_miss 0)] :: string event list"
  have cand: "cacheCandidate (carbonLookasideHelper ?c) ''q''"
    by (simp add: demo_route_def mkCarbonLookasideRoute_def demo_helper_def)
  have leases: "enableLeases (leaseSettings ?c)"
    by (simp add: demo_route_def mkCarbonLookasideRoute_def demo_leases_def)
  have key: "buildKey ?c ''q'' = ''p:k''"
    by (simp add: demo_route_def mkCarbonLookasideRoute_def demo_helper_def buildKey_def
        buildKeySuffix_def)
  have "carbonLookasideLeaseGet demo_codec ?c 10 ''p:k'' [] = (Returns (None, 0), ?T)"
    by code_simp
  then have run: "carbonLookasideLeaseGet demo_codec ?c 10 (buildKey ?c ''q'') []
      = (Returns (None, 0), ?T)"
    by (simp only: key)
  have r: "demo_lease_miss 0 \<in> set (lease_replies (drop (length ([] :: string event list)) ?T))"
    by simp
  have miss: "isMissResult (lg_result (demo_lease_miss 0))"
    by (simp add: demo_lease_miss_def isMissResult_def)
  have tok: "lg_leaseToken (demo_lease_miss 0) = 0"
    by (simp add: demo_lease_miss_def)
  from lease_miss_token_zero [OF cand leases run r miss tok]
  have "route demo_codec ?c 10 ''q'' [] =
     (Returns (rh_route (child ?c) ?T ''q''),
      ?T @ [ChildRoute ''q'',
            SendSet \<lparr>set_key = buildKey ?c ''q'', set_exptime = ttl ?c,
              set_value = concat (serialize demo_codec (rh_route (child ?c) ?T ''q''))\<rparr>])"
    by blast
  then have "route demo_codec ?c 10 ''q'' [] =
     (Returns (rh_route (child ?c) ?T ''q''),
      ?T @ [ChildRoute ''q'',
            SendSet \<lparr>set_key = ''p:k'', set_exptime = ttl ?c,
              set_value = concat (serialize demo_codec (rh_route (child ?c) ?T ''q''))\<rparr>])"
    unfolding key .
  then show ?thesis
    by (simp add: demo_route_def mkCarbonLookasideRoute_def demo_child_def demo_codec_def)
qed

text \<open>
  C4, as the code has it. A lease read that returns after a hot miss has used up
  its \<open>numRetries + 1\<close> attempts; it returns no reply and the token 0. The route then
  calls the child and, holding no token, hands over a plain \<^verbatim>\<open>SET\<close> of the child's
  reply; it issues no \<^verbatim>\<open>LEASE_SET\<close>.
\<close>

theorem hot_miss_exhausted_plain_set:
  fixes t :: "'req event list"
  assumes "cacheCandidate (carbonLookasideHelper c) req"
    and "enableLeases (leaseSettings c)"
    and "carbonLookasideLeaseGet cd c fuel (buildKey c req) t = (Returns (ret, tok), t1)"
    and "lease_replies (drop (length t) t1) \<noteq> []"
    and "hot_miss (last (lease_replies (drop (length t) t1)))"
  shows "ret = None \<and> tok = 0 \<and>
         int (length (lease_replies (drop (length t) t1)))
           = sint (numRetries (leaseSettings c)) + 1 \<and>
         route cd c fuel req t =
           (Returns (rh_route (child c) t1 req),
            t1 @ [ChildRoute req,
                  SendSet \<lparr>set_key = buildKey c req, set_exptime = ttl c,
                    set_value = concat (serialize cd (rh_route (child c) t1 req))\<rparr>])"
proof -
  from lease_get_summary [OF assms(3)] obtain rs where
    rs: "rs = lease_replies (drop (length t) t1)"
    and fin: "rs \<noteq> [] \<and> hot_miss (last rs) \<longrightarrow>
           int (length rs) = sint (numRetries (leaseSettings c)) + 1 \<and> ret = None \<and> tok = 0"
    by (elim exE conjE) blast
  with assms(4,5) have 1: "ret = None" "tok = 0"
    "int (length (lease_replies (drop (length t) t1))) = sint (numRetries (leaseSettings c)) + 1"
    by simp_all
  have "carbonLookasideGet cd c fuel (buildKey c req) 0 t = (Returns (None, 0), t1)"
    using assms(2,3) 1 by (simp add: carbonLookasideGet_def)
  from route_miss_eq [OF assms(1) this]
  have "route cd c fuel req t =
           (Returns (rh_route (child c) t1 req),
            t1 @ [ChildRoute req,
                  SendSet \<lparr>set_key = buildKey c req, set_exptime = ttl c,
                    set_value = concat (serialize cd (rh_route (child c) t1 req))\<rparr>])"
    by (simp add: carbonLookasideSet_def carbonLookasideSet_plain_def serializeOffFiber_concat)
  with 1 show ?thesis by blast
qed

text \<open>
  The claim as the specification words it fails: with one retry and a cache that
  keeps answering with the hot-miss token, the route sends two \<^verbatim>\<open>LEASE_GET\<close>s, calls
  the child and then does write.
\<close>

theorem hot_miss_exhausted_counterexample:
  "route demo_codec (demo_route (demo_leases 2 8 1)
      (demo_client demo_get_miss 5 (demo_lease_miss 42)) 1) 10 ''q'' []
    = (Returns ''re:q'',
       [SendLeaseGet ''p:k'' (demo_lease_miss 1), Sleep 2,
        SendLeaseGet ''p:k'' (demo_lease_miss 1), ChildRoute ''q'',
        SendSet \<lparr>set_key = ''p:k'', set_exptime = 10, set_value = ''R:re:q''\<rparr>]) \<and>
   filter is_write (snd (route demo_codec (demo_route (demo_leases 2 8 1)
      (demo_client demo_get_miss 5 (demo_lease_miss 42)) 1) 10 ''q'' [])) \<noteq> []"
proof -
  let ?c = "demo_route (demo_leases 2 8 1) (demo_client demo_get_miss 5 (demo_lease_miss 42)) 1"
  have run: "route demo_codec ?c 10 ''q'' []
    = (Returns ''re:q'',
       [SendLeaseGet ''p:k'' (demo_lease_miss 1), Sleep 2,
        SendLeaseGet ''p:k'' (demo_lease_miss 1), ChildRoute ''q'',
        SendSet \<lparr>set_key = ''p:k'', set_exptime = 10, set_value = ''R:re:q''\<rparr>])"
    by code_simp
  show ?thesis unfolding run by simp
qed

theorem hot_miss_exhausted_plain_set_witness:
  "route demo_codec (demo_route (demo_leases 2 8 1)
      (demo_client demo_get_miss 5 (demo_lease_miss 42)) 1) 10 ''q'' []
    = (Returns ''re:q'',
       [SendLeaseGet ''p:k'' (demo_lease_miss 1), Sleep 2,
        SendLeaseGet ''p:k'' (demo_lease_miss 1)] @
       [ChildRoute ''q'',
        SendSet \<lparr>set_key = ''p:k'', set_exptime = 10, set_value = ''R:re:q''\<rparr>])"
proof -
  let ?c = "demo_route (demo_leases 2 8 1) (demo_client demo_get_miss 5 (demo_lease_miss 42)) 1"
  let ?T = "[SendLeaseGet ''p:k'' (demo_lease_miss 1), Sleep 2,
        SendLeaseGet ''p:k'' (demo_lease_miss 1)] :: string event list"
  have cand: "cacheCandidate (carbonLookasideHelper ?c) ''q''"
    by (simp add: demo_route_def mkCarbonLookasideRoute_def demo_helper_def)
  have leases: "enableLeases (leaseSettings ?c)"
    by (simp add: demo_route_def mkCarbonLookasideRoute_def demo_leases_def)
  have key: "buildKey ?c ''q'' = ''p:k''"
    by (simp add: demo_route_def mkCarbonLookasideRoute_def demo_helper_def buildKey_def
        buildKeySuffix_def)
  have "carbonLookasideLeaseGet demo_codec ?c 10 ''p:k'' [] = (Returns (None, 0), ?T)"
    by code_simp
  then have run: "carbonLookasideLeaseGet demo_codec ?c 10 (buildKey ?c ''q'') []
      = (Returns (None, 0), ?T)"
    by (simp only: key)
  have ne: "lease_replies (drop (length ([] :: string event list)) ?T) \<noteq> []"
    by simp
  have hot: "hot_miss (last (lease_replies (drop (length ([] :: string event list)) ?T)))"
    by (simp add: hot_miss_def demo_lease_miss_def isMissResult_def kLeaseHotMissToken_def)
  from hot_miss_exhausted_plain_set [OF cand leases run ne hot]
  have "route demo_codec ?c 10 ''q'' [] =
     (Returns (rh_route (child ?c) ?T ''q''),
      ?T @ [ChildRoute ''q'',
            SendSet \<lparr>set_key = buildKey ?c ''q'', set_exptime = ttl ?c,
              set_value = concat (serialize demo_codec (rh_route (child ?c) ?T ''q''))\<rparr>])"
    by blast
  then have "route demo_codec ?c 10 ''q'' [] =
     (Returns (rh_route (child ?c) ?T ''q''),
      ?T @ [ChildRoute ''q'',
            SendSet \<lparr>set_key = ''p:k'', set_exptime = ttl ?c,
              set_value = concat (serialize demo_codec (rh_route (child ?c) ?T ''q''))\<rparr>])"
    unfolding key .
  then show ?thesis
    by (simp add: demo_route_def mkCarbonLookasideRoute_def demo_child_def demo_codec_def)
qed

lemma read_event_key:
  "is_read_event key e \<Longrightarrow> is_cache_op e \<longrightarrow> event_key e = Some key"
  by (cases e) auto

lemma route_trace_keys:
  fixes t :: "'req event list"
  assumes "cacheCandidate (carbonLookasideHelper c) req"
  shows "\<exists>new. snd (route cd c fuel req t) = t @ new \<and>
           (\<forall>e \<in> set new. is_cache_op e \<longrightarrow> event_key e = Some (buildKey c req))"
proof -
  obtain out t1 where rd: "carbonLookasideGet cd c fuel (buildKey c req) 0 t = (out, t1)"
    by (cases "carbonLookasideGet cd c fuel (buildKey c req) 0 t")
  from read_trace [OF rd] obtain new where
    new: "t1 = t @ new" "\<forall>e \<in> set new. is_read_event (buildKey c req) e"
    by blast
  then have keys: "\<forall>e \<in> set new. is_cache_op e \<longrightarrow> event_key e = Some (buildKey c req)"
    using read_event_key by blast
  show ?thesis
  proof (cases out)
    case OutOfFuel
    with rd assms have "route cd c fuel req t = (OutOfFuel, t1)"
      by (simp add: route_def)
    with new(1) keys show ?thesis by auto
  next
    case (Returns p)
    obtain ret tok where p: "p = (ret, tok)" by (cases p)
    show ?thesis
    proof (cases ret)
      case (Some r)
      with rd Returns p have "route cd c fuel req t = (Returns r, t1)"
        using assms by (simp add: route_hit_eq)
      with new(1) keys show ?thesis by auto
    next
      case None
      with rd Returns p
      have "carbonLookasideGet cd c fuel (buildKey c req) 0 t = (Returns (None, tok), t1)"
        by simp
      from route_miss_eq [OF assms this]
      have "\<exists>w. snd (route cd c fuel req t) = t @ (new @ [ChildRoute req, w]) \<and>
          is_write w \<and> event_key w = Some (buildKey c req)"
        by (simp add: new(1) carbonLookasideSet_def carbonLookasideSet_plain_def
            carbonLookasideLeaseSet_def)
      then obtain w where
        w: "snd (route cd c fuel req t) = t @ (new @ [ChildRoute req, w])"
          "event_key w = Some (buildKey c req)"
        by blast
      have "\<forall>e \<in> set (new @ [ChildRoute req, w]).
          is_cache_op e \<longrightarrow> event_key e = Some (buildKey c req)"
        using keys w(2) by auto
      with w(1) show ?thesis by blast
    qed
  qed
qed

text \<open>
  C6. The key. For a route built by the constructor, the key of a request is the
  prefix, then the helper's key, then the suffix fixed at construction: empty when
  \<open>keySplitSize \<le> 1\<close>, and otherwise \<^verbatim>\<open>":ks"\<close> followed by the decimal digits of
  the host id modulo \<open>keySplitSize\<close>. Every cache operation that \<open>route\<close> issues for
  a cache candidate, the reads and the write after them, carries exactly this key.
\<close>

theorem route_uses_one_key:
  fixes t :: "'req event list"
  assumes "cacheCandidate helper req"
    and "c = mkCarbonLookasideRoute hostid ch rt cl prefix keySplitSize ttl' helper ls"
  shows "buildKey c req =
           prefix @ helper_buildKey helper req @
           (if keySplitSize \<le> 1 then []
            else '':ks'' @ to_decimal (unat hostid mod unat keySplitSize)) \<and>
         (\<exists>new. snd (route cd c fuel req t) = t @ new \<and>
            (\<forall>e \<in> set new. is_cache_op e \<longrightarrow> event_key e = Some (buildKey c req)))"
proof -
  have "buildKey c req =
           prefix @ helper_buildKey helper req @
           (if keySplitSize \<le> 1 then []
            else '':ks'' @ to_decimal (unat hostid mod unat keySplitSize))"
    by (simp add: assms(2) buildKey_def mkCarbonLookasideRoute_def buildKeySuffix_def
        unat_mod_distrib)
  moreover have "cacheCandidate (carbonLookasideHelper c) req"
    using assms by (simp add: mkCarbonLookasideRoute_def)
  ultimately show ?thesis
    using route_trace_keys [of c req cd fuel t] by blast
qed

theorem route_uses_one_key_witness:
  "buildKey (demo_route defaultLeaseSettings (demo_client demo_get_miss 0 (demo_lease_miss 0)) 4)
      ''q'' = ''p:k:ks2'' \<and>
   snd (route demo_codec
      (demo_route defaultLeaseSettings (demo_client demo_get_miss 0 (demo_lease_miss 0)) 4)
      10 ''q'' [])
    = [SendGet ''p:k:ks2'' demo_get_miss, ChildRoute ''q'',
       SendSet \<lparr>set_key = ''p:k:ks2'', set_exptime = 10, set_value = ''R:re:q''\<rparr>]"
proof -
  let ?cl = "demo_client demo_get_miss 0 (demo_lease_miss 0)"
  let ?c = "demo_route defaultLeaseSettings ?cl 4"
  have cand: "cacheCandidate demo_helper ''q''"
    by (simp add: demo_helper_def)
  have c: "?c = mkCarbonLookasideRoute 6 demo_child
      (CarbonRouterInstance ''CarbonLookasideClient:web'') ?cl ''p:'' 4 10 demo_helper
      defaultLeaseSettings"
    by (simp add: demo_route_def)
  have dec: "to_decimal (unat (6 :: size_t) mod unat (4 :: size_t)) = ''2''"
    by code_simp
  from route_uses_one_key [OF cand c, of demo_codec 10 "[]"]
  have "buildKey ?c ''q'' =
      ''p:'' @ helper_buildKey demo_helper ''q'' @
      (if (4 :: size_t) \<le> 1 then []
       else '':ks'' @ to_decimal (unat (6 :: size_t) mod unat (4 :: size_t)))"
    by blast
  moreover have "\<not> (4 :: size_t) \<le> 1"
    by (simp add: word_le_nat_alt)
  ultimately have key: "buildKey ?c ''q'' = ''p:k:ks2''"
    unfolding dec by (simp add: demo_helper_def)
  have "snd (route demo_codec ?c 10 ''q'' [])
    = [SendGet ''p:k:ks2'' demo_get_miss, ChildRoute ''q'',
       SendSet \<lparr>set_key = ''p:k:ks2'', set_exptime = 10, set_value = ''R:re:q''\<rparr>]"
    by code_simp
  with key show ?thesis by blast
qed

lemma read_hit_conv:
  fixes t :: "'req event list"
  assumes rd: "carbonLookasideGet cd c fuel key tok0 t = (out, t @ new)"
    and ne: "new \<noteq> []"
    and hit: "cached_payload (last new) = Some payload"
  shows "\<exists>tok. out = Returns (Some (reply_object (deserialize cd payload)), tok)"
proof (cases "enableLeases (leaseSettings c)")
  case False
  with rd have "new = [SendGet key (send_get (client c) t key)]"
    and "out = Returns (fst (carbonLookasideGet_plain cd c key t), tok0)"
    by (auto simp: carbonLookasideGet_def carbonLookasideGet_plain_def Let_def)
  with hit show ?thesis
    by (auto simp: carbonLookasideGet_plain_def Let_def split: if_splits)
next
  case True
  with rd have run: "carbonLookasideLeaseGet cd c fuel key t = (out, t @ new)"
    by (simp add: carbonLookasideGet_def)
  from lease_get_summary [OF run] obtain rs where
    new: "t @ new = t @ lease_events32 key 0 (sint (initialWaitMs (leaseSettings c)))
                 (sint (maxWaitMs (leaseSettings c))) rs"
    and fin: "\<forall>ret tok. out = Returns (ret, tok) \<longrightarrow>
        (rs \<noteq> [] \<and> hot_miss (last rs) \<longrightarrow>
           int (length rs) = sint (numRetries (leaseSettings c)) + 1 \<and> ret = None \<and> tok = 0) \<and>
        (rs \<noteq> [] \<and> isMissResult (lg_result (last rs)) \<and>
         lg_leaseToken (last rs) \<noteq> kLeaseHotMissToken \<longrightarrow>
           ret = None \<and> tok = lg_leaseToken (last rs)) \<and>
        (rs \<noteq> [] \<and> hit_with_payload (last rs) \<longrightarrow>
           (\<exists>payload. lg_value (last rs) = Some payload \<and>
              ret = Some (reply_object (deserialize cd payload))) \<and> tok = 0)"
    and ovf: "out = OutOfFuel \<longrightarrow> (\<forall>r \<in> set rs. hot_miss r) \<and> length rs = fuel"
    by (elim exE conjE) (rule that)
  let ?ev = "lease_events32 key 0 (sint (initialWaitMs (leaseSettings c)))
                 (sint (maxWaitMs (leaseSettings c))) rs :: 'req event list"
  from new have new': "new = ?ev" by simp
  with ne have rs: "rs \<noteq> []" by auto
  then have "last new = SendLeaseGet key (last rs)"
    by (simp add: new' lease_events32_last)
  with hit have h: "isHitResult (lg_result (last rs))" "lg_value (last rs) = Some payload"
    by (simp_all split: if_splits)
  then have hp: "hit_with_payload (last rs)"
    by (simp add: hit_with_payload_def)
  then have "\<not> hot_miss (last rs)"
    using hot_miss_not_hit by blast
  with ovf rs have "out \<noteq> OutOfFuel"
    using last_in_set by blast
  then obtain ret tok where out: "out = Returns (ret, tok)"
    by (cases out) auto
  from fin [rule_format, OF out] rs hp
  have "\<exists>payload. lg_value (last rs) = Some payload \<and>
      ret = Some (reply_object (deserialize cd payload))"
    by blast
  with h(2) out show ?thesis by auto
qed

text \<open>
  C8, as the code has it. The route never learns whether deserialisation succeeded.
  Whenever the last read of a cache candidate is a hit with a payload, the route
  returns the reply object that \<^verbatim>\<open>deserialize\<close> left behind for that payload, well
  formed or not, and does not call the child.
\<close>

theorem cached_payload_returned_unchecked:
  fixes t :: "'req event list"
  assumes "cacheCandidate (carbonLookasideHelper c) req"
    and "carbonLookasideGet cd c fuel (buildKey c req) 0 t = (out, t @ new)"
    and "new \<noteq> []"
    and "cached_payload (last new) = Some payload"
  shows "route cd c fuel req t = (Returns (reply_object (deserialize cd payload)), t @ new) \<and>
         filter is_child_call new = []"
proof -
  from read_hit_conv [OF assms(2-4)] obtain tok where
    out: "out = Returns (Some (reply_object (deserialize cd payload)), tok)"
    by blast
  from read_trace [OF assms(2)] have "\<forall>e \<in> set new. is_read_event (buildKey c req) e"
    by simp
  then have "filter is_child_call new = []"
    by (rule read_events_no_child)
  moreover have "route cd c fuel req t
      = (Returns (reply_object (deserialize cd payload)), t @ new)"
    using assms(1) assms(2) [unfolded out] by (rule route_hit_eq)
  ultimately show ?thesis by blast
qed

text \<open>
  The claim as the specification words it fails: the payload \<^verbatim>\<open>"garbage"\<close> is no
  serialisation of a reply, and the route returns the empty reply object as a cache
  hit, without a call of the child.
\<close>

theorem deserialization_failure_counterexample:
  "\<not> well_formed (deserialize demo_codec ''garbage'') \<and>
   route demo_codec (demo_route defaultLeaseSettings
      (demo_client (demo_get_hit ''garbage'') 0 (demo_lease_miss 0)) 1) 10 ''q'' []
    = (Returns [], [SendGet ''p:k'' (demo_get_hit ''garbage'')]) \<and>
   filter is_child_call (snd (route demo_codec (demo_route defaultLeaseSettings
      (demo_client (demo_get_hit ''garbage'') 0 (demo_lease_miss 0)) 1) 10 ''q'' [])) = []"
proof -
  let ?c = "demo_route defaultLeaseSettings
      (demo_client (demo_get_hit ''garbage'') 0 (demo_lease_miss 0)) 1"
  have wf: "\<not> well_formed (deserialize demo_codec ''garbage'')"
    by (simp add: demo_codec_def)
  have run: "route demo_codec ?c 10 ''q'' []
      = (Returns [], [SendGet ''p:k'' (demo_get_hit ''garbage'')])"
    by code_simp
  show ?thesis unfolding run using wf by simp
qed

theorem cached_payload_returned_unchecked_witness:
  "route demo_codec (demo_route defaultLeaseSettings
      (demo_client (demo_get_hit ''garbage'') 0 (demo_lease_miss 0)) 1) 10 ''q'' []
    = (Returns (reply_object (deserialize demo_codec ''garbage'')),
       [] @ [SendGet ''p:k'' (demo_get_hit ''garbage'')])"
proof -
  let ?c = "demo_route defaultLeaseSettings
      (demo_client (demo_get_hit ''garbage'') 0 (demo_lease_miss 0)) 1"
  have cand: "cacheCandidate (carbonLookasideHelper ?c) ''q''"
    by (simp add: demo_route_def mkCarbonLookasideRoute_def demo_helper_def)
  have key: "buildKey ?c ''q'' = ''p:k''"
    by (simp add: demo_route_def mkCarbonLookasideRoute_def demo_helper_def buildKey_def
        buildKeySuffix_def)
  have "carbonLookasideGet demo_codec ?c 10 ''p:k'' 0 []
      = (Returns (Some [], 0), [] @ [SendGet ''p:k'' (demo_get_hit ''garbage'')])"
    by code_simp
  then have rd: "carbonLookasideGet demo_codec ?c 10 (buildKey ?c ''q'') 0 []
      = (Returns (Some [], 0), [] @ [SendGet ''p:k'' (demo_get_hit ''garbage'')])"
    by (simp only: key)
  have ne: "[SendGet ''p:k'' (demo_get_hit ''garbage'')] \<noteq> ([] :: string event list)"
    by simp
  have hit: "cached_payload (last [SendGet ''p:k'' (demo_get_hit ''garbage'') :: string event])
      = Some ''garbage''"
    by (simp add: demo_get_hit_def isHitResult_def)
  from cached_payload_returned_unchecked [OF cand rd ne hit] show ?thesis
    by blast
qed

lemma factory_result:
  assumes "createCarbonLookasideRoute fe json = Inr h"
  shows "\<exists>jChild ch prefix keySplitSize ttl' helper ls.
           get_ptr json ''child'' = Some jChild \<and> factory_create fe jChild = Some ch \<and>
           h = wrapChild fe ch prefix (config_flavor json) keySplitSize ttl' helper ls"
proof -
  from assms obtain jChild where 1: "get_ptr json ''child'' = Some jChild"
    by (auto simp: createCarbonLookasideRoute_def split: if_splits option.splits)
  from assms 1 obtain ch where 2: "factory_create fe jChild = Some ch"
    by (auto simp: createCarbonLookasideRoute_def split: if_splits option.splits)
  from assms 1 2 obtain jTtl where 3: "get_ptr json ''ttl'' = Some jTtl"
    by (auto simp: createCarbonLookasideRoute_def split: if_splits option.splits)
  from assms 1 2 3 obtain i where 4: "jTtl = DInt i"
    by (cases jTtl) (auto simp: createCarbonLookasideRoute_def split: if_splits)
  have fl: "(case get_ptr json ''flavor'' of
               None \<Rightarrow> Inr ''web''
             | Some (DString s) \<Rightarrow> Inr s
             | Some _ \<Rightarrow> Inl FlavorNotAString) = Inr flavor \<Longrightarrow> flavor = config_flavor json"
    for flavor
    by (auto simp: config_flavor_def split: option.splits dynamic.splits)
  from assms 1 2 3 4 show ?thesis
    by (auto simp: createCarbonLookasideRoute_def Let_def dest!: fl
        split: if_splits sum.splits) blast
qed

text \<open>
  C9. When the factory returns a route handle (the configuration passed its checks)
  and either \<^verbatim>\<open>createCarbonLookasideRouter\<close> gave no router for the configured
  flavor or the router's \<^verbatim>\<open>createClient\<close> threw, the handle returned is the very
  handle the route handle factory made for \<^verbatim>\<open>"child"\<close>, not wrapped. Routing
  through it is a call of the child and nothing else; being the child's own
  handle, it is traversed as the child is.
\<close>

theorem factory_returns_raw_child:
  assumes "createCarbonLookasideRoute fe json = Inr h"
    and "createCarbonLookasideRouter fe (''CarbonLookasideClient:'' @ config_flavor json)
           (config_flavor json) = None \<or>
         (\<exists>rt what. createCarbonLookasideRouter fe
              (''CarbonLookasideClient:'' @ config_flavor json) (config_flavor json) = Some rt \<and>
            createClient fe rt = Inl what)"
  shows "\<exists>jChild ch. get_ptr json ''child'' = Some jChild \<and>
           factory_create fe jChild = Some ch \<and> h = RawChild ch \<and>
           (\<forall>cd fuel req t. route_handle cd fuel h req t
              = (Returns (rh_route ch t req), t @ [ChildRoute req]))"
proof -
  from factory_result [OF assms(1)] obtain jChild ch prefix keySplitSize ttl' helper ls where
    c: "get_ptr json ''child'' = Some jChild" "factory_create fe jChild = Some ch"
    and h: "h = wrapChild fe ch prefix (config_flavor json) keySplitSize ttl' helper ls"
    by blast
  from assms(2) have "wrapChild fe ch prefix (config_flavor json) keySplitSize ttl' helper ls
      = RawChild ch"
    by (auto simp: wrapChild_def)
  with h have "h = RawChild ch" by simp
  with c show ?thesis by simp
qed

theorem factory_returns_raw_child_witness:
  "createCarbonLookasideRoute (demo_factory (\<lambda>p f. None) (\<lambda>r. Inl ''no client'')) demo_json
     = Inr (RawChild demo_child) \<and>
   createCarbonLookasideRoute
     (demo_factory (\<lambda>p f. Some (CarbonRouterInstance p)) (\<lambda>r. Inl ''no client'')) demo_json
     = Inr (RawChild demo_child)"
proof -
  let ?fe1 = "demo_factory (\<lambda>p f. None) (\<lambda>r. Inl ''no client'')"
  let ?fe2 = "demo_factory (\<lambda>p f. Some (CarbonRouterInstance p)) (\<lambda>r. Inl ''no client'')"
  have child: "get_ptr demo_json ''child'' = Some (DString ''PoolRoute|A'')"
    by (simp add: demo_json_def)
  have r1: "createCarbonLookasideRoute ?fe1 demo_json = Inr (wrapChild ?fe1 demo_child ''reg''
      ''web'' 3 10 demo_helper defaultLeaseSettings)"
    by (simp add: createCarbonLookasideRoute_def demo_json_def demo_factory_def)
  have r2: "createCarbonLookasideRoute ?fe2 demo_json = Inr (wrapChild ?fe2 demo_child ''reg''
      ''web'' 3 10 demo_helper defaultLeaseSettings)"
    by (simp add: createCarbonLookasideRoute_def demo_json_def demo_factory_def)
  have f1: "createCarbonLookasideRouter ?fe1 (''CarbonLookasideClient:'' @ config_flavor demo_json)
           (config_flavor demo_json) = None \<or>
         (\<exists>rt what. createCarbonLookasideRouter ?fe1
              (''CarbonLookasideClient:'' @ config_flavor demo_json) (config_flavor demo_json)
              = Some rt \<and> createClient ?fe1 rt = Inl what)"
    by (simp add: demo_factory_def)
  have f2: "createCarbonLookasideRouter ?fe2 (''CarbonLookasideClient:'' @ config_flavor demo_json)
           (config_flavor demo_json) = None \<or>
         (\<exists>rt what. createCarbonLookasideRouter ?fe2
              (''CarbonLookasideClient:'' @ config_flavor demo_json) (config_flavor demo_json)
              = Some rt \<and> createClient ?fe2 rt = Inl what)"
    by (simp add: demo_factory_def)
  from factory_returns_raw_child [OF r1 f1]
  have "wrapChild ?fe1 demo_child ''reg'' ''web'' 3 10 demo_helper defaultLeaseSettings
      = RawChild demo_child"
    by (auto simp: child demo_factory_def)
  moreover from factory_returns_raw_child [OF r2 f2]
  have "wrapChild ?fe2 demo_child ''reg'' ''web'' 3 10 demo_helper defaultLeaseSettings
      = RawChild demo_child"
    by (auto simp: child demo_factory_def)
  ultimately show ?thesis using r1 r2 by simp
qed

end
